theory Spec2Isabelle
  imports
    Complex_Main
    "HOL-Library.Multiset"
    "HOL-Library.Char_ord"
    "HOL-Library.List_Lexorder"
    "HOL-Library.AList"
begin

section \<open>Spin-resolved DOS extraction: the embedding\<close>

text \<open>
  The development embeds \<^verbatim>\<open>src/DOSParser/read_spin_dos.py\<close> and
  \<^verbatim>\<open>src/DOSParser/ReadDOS.py\<close>. The arrays of the program hold IEEE 754 binary64
  numbers, and every arithmetic operation on them rounds; the embedding computes with a
  model of these numbers in which each operation returns the correctly rounded result,
  overflows to an infinity, underflows through the subnormal range to a signed zero, and
  produces NaN where the standard does.
\<close>

subsection \<open>Errors\<close>

datatype error =
    ParseError          \<comment> \<open>\<^verbatim>\<open>xml.etree.ElementTree.ParseError\<close>\<close>
  | AttributeError
  | UnboundLocalError string   \<comment> \<open>the local variable read before assignment\<close>
  | KeyError string
  | IndexError
  | ValueError

definition and_then :: "error + 'a \<Rightarrow> ('a \<Rightarrow> error + 'b) \<Rightarrow> error + 'b" where
  "and_then m f = (case m of Inl e \<Rightarrow> Inl e | Inr v \<Rightarrow> f v)"

fun traverse :: "('a \<Rightarrow> error + 'b) \<Rightarrow> 'a list \<Rightarrow> error + 'b list" where
  "traverse f [] = Inr []"
| "traverse f (x # xs) =
     and_then (f x) (\<lambda>y. and_then (traverse f xs) (\<lambda>ys. Inr (y # ys)))"

subsection \<open>Double-precision numbers\<close>

text \<open>
  A double is a sign and a magnitude (\<open>Num True m\<close> is \<open>- m\<close>, and \<open>Num s 0\<close> is a zero
  with its sign), an infinity with its sign, or NaN. The magnitude of a number the program
  holds is one that 53 significant bits and a binary exponent between -1022 and 1023
  represent; \<open>round_mag\<close> sends any magnitude to the nearest such one, ties to the even
  significand.
\<close>

datatype float64 = Num bool rat | Inf bool | NaN

text \<open>The number of binary digits of a positive integer.\<close>

function bits :: "int \<Rightarrow> nat" where
  "bits n = (if n \<le> 0 then 0 else Suc (bits (n div 2)))"
  by pat_completeness auto
termination
  by (relation "measure nat") auto

declare bits.simps [simp del]

definition pow2 :: "int \<Rightarrow> rat" where
  "pow2 k = (if 0 \<le> k then 2 ^ nat k else 1 / 2 ^ nat (- k))"

text \<open>The binary exponent of a positive magnitude: the \<open>e\<close> with \<open>2^e \<le> m < 2^(e+1)\<close>.\<close>

definition ilog2 :: "rat \<Rightarrow> int" where
  "ilog2 m =
     (let (a, b) = quotient_of m;
          k = int (bits a) - int (bits b)
      in if pow2 k \<le> m then k else k - 1)"

definition round_half_even :: "rat \<Rightarrow> int" where
  "round_half_even t =
     (let n = \<lfloor>t\<rfloor>; r = t - of_int n
      in if r < 1 / 2 then n
         else if 1 / 2 < r then n + 1
         else if even n then n else n + 1)"

text \<open>
  Rounding to nearest, ties to even: the unit in the last place is \<open>2^(e-52)\<close>, and
  \<open>2^(-1074)\<close> below the normal range. The result is an infinity when the rounded
  magnitude reaches \<open>2^1024\<close>: when the exponent is above 1023, or is 1023 and the
  significand rounds up to \<open>2^53\<close>.
\<close>

definition round_mag :: "bool \<Rightarrow> rat \<Rightarrow> float64" where
  "round_mag s m =
     (if m \<le> 0 then Num s 0
      else
        let e = ilog2 m;
            u = max e (- 1022) - 52;
            n = round_half_even (m / pow2 u)
        in if 1024 \<le> e \<or> (e = 1023 \<and> n = 2 ^ 53) then Inf s
           else Num s (of_int n * pow2 u))"

text \<open>The double nearest to a rational: what \<^verbatim>\<open>float\<close> makes of a decimal literal.\<close>

definition f64 :: "rat \<Rightarrow> float64" where
  "f64 q = round_mag (q < 0) \<bar>q\<bar>"

definition val :: "bool \<Rightarrow> rat \<Rightarrow> rat" where
  "val s m = (if s then - m else m)"

fun fneg :: "float64 \<Rightarrow> float64" where
  "fneg (Num s m) = Num (\<not> s) m"
| "fneg (Inf s) = Inf (\<not> s)"
| "fneg NaN = NaN"

text \<open>
  \<^verbatim>\<open>a + b\<close>. An exact sum of zero is \<open>+0\<close>, except that \<open>-0 + -0\<close> is \<open>-0\<close>.
\<close>

fun fadd :: "float64 \<Rightarrow> float64 \<Rightarrow> float64" where
  "fadd (Num s a) (Num t b) =
     (let r = val s a + val t b
      in if r = 0 then Num (s \<and> t) 0 else round_mag (r < 0) \<bar>r\<bar>)"
| "fadd (Num s a) (Inf t) = Inf t"
| "fadd (Inf s) (Num t b) = Inf s"
| "fadd (Inf s) (Inf t) = (if s = t then Inf s else NaN)"
| "fadd NaN _ = NaN"
| "fadd _ NaN = NaN"

text \<open>\<^verbatim>\<open>a - b\<close>.\<close>

definition fsub :: "float64 \<Rightarrow> float64 \<Rightarrow> float64" where
  "fsub a b = fadd a (fneg b)"

text \<open>\<^verbatim>\<open>a * b\<close>: the sign is the product of the signs, also for a zero.\<close>

fun fmul :: "float64 \<Rightarrow> float64 \<Rightarrow> float64" where
  "fmul (Num s a) (Num t b) = round_mag (s \<noteq> t) (a * b)"
| "fmul (Num s a) (Inf t) = (if a = 0 then NaN else Inf (s \<noteq> t))"
| "fmul (Inf s) (Num t b) = (if b = 0 then NaN else Inf (s \<noteq> t))"
| "fmul (Inf s) (Inf t) = Inf (s \<noteq> t)"
| "fmul NaN _ = NaN"
| "fmul _ NaN = NaN"

text \<open>
  \<^verbatim>\<open>a / b\<close> on numpy scalars and arrays: no exception, whatever \<^verbatim>\<open>b\<close> is. A zero
  divisor gives NaN for a zero dividend and an infinity otherwise (numpy warns at most).
\<close>

fun fdiv :: "float64 \<Rightarrow> float64 \<Rightarrow> float64" where
  "fdiv (Num s a) (Num t b) =
     (if b = 0 then (if a = 0 then NaN else Inf (s \<noteq> t))
      else round_mag (s \<noteq> t) (a / b))"
| "fdiv (Num s a) (Inf t) = Num (s \<noteq> t) 0"
| "fdiv (Inf s) (Num t b) = Inf (s \<noteq> t)"
| "fdiv (Inf s) (Inf t) = NaN"
| "fdiv NaN _ = NaN"
| "fdiv _ NaN = NaN"

text \<open>\<^verbatim>\<open>a > b\<close>: false as soon as one side is NaN; the two zeros are equal.\<close>

fun gt :: "float64 \<Rightarrow> float64 \<Rightarrow> bool" where
  "gt (Num s a) (Num t b) = (val t b < val s a)"
| "gt (Num s a) (Inf t) = t"
| "gt (Inf s) (Num t b) = (\<not> s)"
| "gt (Inf s) (Inf t) = (\<not> s \<and> t)"
| "gt NaN _ = False"
| "gt _ NaN = False"

subsection \<open>The numpy operations the program calls\<close>

type_synonym ndarray = "float64 list"

text \<open>
  An elementwise operation on two one-dimensional arrays broadcasts: equal lengths pair up,
  an array of length one is stretched, any other pair of lengths raises
  \<^verbatim>\<open>ValueError\<close>.
\<close>

definition broadcast ::
  "(float64 \<Rightarrow> float64 \<Rightarrow> float64) \<Rightarrow> ndarray \<Rightarrow> ndarray \<Rightarrow> error + ndarray" where
  "broadcast f a b =
     (if length a = length b then Inr (map2 f a b)
      else if length a = 1 then Inr (map (f (hd a)) b)
      else if length b = 1 then Inr (map (\<lambda>v. f v (hd b)) a)
      else Inl ValueError)"

text \<open>\<^verbatim>\<open>y * c\<close> for a scalar \<^verbatim>\<open>c\<close>; the program's \<^verbatim>\<open>y * -1\<close> has \<open>c = Num True 1\<close>.\<close>

definition mul_scalar :: "ndarray \<Rightarrow> float64 \<Rightarrow> ndarray" where
  "mul_scalar y c = map (\<lambda>v. fmul v c) y"

text \<open>\<^verbatim>\<open>np.diff(x)\<close>: \<^verbatim>\<open>x[1:] - x[:-1]\<close>.\<close>

definition diff :: "ndarray \<Rightarrow> ndarray" where
  "diff x = map2 (\<lambda>hi lo. fsub hi lo) (tl x) (butlast x)"

text \<open>
  \<^verbatim>\<open>a.sum()\<close>. In which order numpy adds the elements of an array is its own business
  (one after the other for a short array, in blocks and pairs for a long one, from a zero
  accumulator or from the first element, depending on the version), and the order matters
  for the rounded result. What is fixed is that the order depends on the number of elements
  only. So the order is a parameter of the embedding: for each length a tree of additions
  whose leaves are elements of the array, by index, or zero accumulators.
\<close>

datatype addition = Elem nat | Zero bool | Plus addition addition

fun run :: "addition \<Rightarrow> ndarray \<Rightarrow> float64" where
  "run (Elem i) a = (if i < length a then a ! i else Num False 0)"
| "run (Zero s) a = Num s 0"
| "run (Plus l r) a = fadd (run l a) (run r a)"

definition np_sum :: "(nat \<Rightarrow> addition) \<Rightarrow> ndarray \<Rightarrow> float64" where
  "np_sum order a = run (order (length a)) a"

text \<open>
  \<^verbatim>\<open>np.trapz(y, x)\<close> for one-dimensional arguments:
  \<^verbatim>\<open>(diff(x) * (y[1:] + y[:-1]) / 2.0).sum()\<close>.
\<close>

definition trapz :: "(nat \<Rightarrow> addition) \<Rightarrow> ndarray \<Rightarrow> ndarray \<Rightarrow> error + float64" where
  "trapz order y x =
     and_then (broadcast (\<lambda>d s. fmul d s) (diff x) (map2 (\<lambda>hi lo. fadd hi lo) (tl y) (butlast y)))
       (\<lambda>p. Inr (np_sum order (map (\<lambda>v. fdiv v (Num False 2)) p)))"

subsection \<open>\<^verbatim>\<open>read_spin_dos.py\<close>: band center and the alpha/beta check\<close>

definition dcenter :: "(nat \<Rightarrow> addition) \<Rightarrow> ndarray \<Rightarrow> ndarray \<Rightarrow> error + float64" where
  "dcenter order x y =
     and_then (trapz order y x) (\<lambda>pdE.
     and_then (broadcast (\<lambda>a b. fmul a b) y x) (\<lambda>yx.
     and_then (trapz order yx x) (\<lambda>pEdE.
     Inr (fdiv pEdE pdE))))"

type_synonym dict = "(string \<times> ndarray) list"

definition getitem :: "(string \<times> 'v) list \<Rightarrow> string \<Rightarrow> error + 'v" where
  "getitem d k = (case map_of d k of None \<Rightarrow> Inl (KeyError k) | Some v \<Rightarrow> Inr v)"

definition check_ab :: "(nat \<Rightarrow> addition) \<Rightarrow> dict \<Rightarrow> dict \<Rightarrow> error + bool" where
  "check_ab order alpha beta =
     and_then (getitem alpha ''dE_alpha'') (\<lambda>x_a.
     and_then (getitem beta ''dE_beta'') (\<lambda>x_b.
     and_then (getitem alpha ''d_alpha'') (\<lambda>y_a.
     and_then (getitem beta ''d_beta'') (\<lambda>y_b.
     and_then (dcenter order x_a y_a) (\<lambda>dc_alpha.
     and_then (dcenter order x_b y_b) (\<lambda>dc_beta.
     Inr (gt dc_alpha dc_beta)))))))"

subsection \<open>The spectral-data file\<close>

text \<open>
  A child of a \<^verbatim>\<open>SERIES_2D\<close> element is given by what the program reads of it: whether
  it has an \<^verbatim>\<open>XY\<close> attribute and, if so, for each piece of
  \<^verbatim>\<open>item.attrib['XY'].split(',')\<close> what \<^verbatim>\<open>float\<close> makes of it: a double
  (\<^verbatim>\<open>float\<close> also accepts \<^verbatim>\<open>inf\<close> and \<^verbatim>\<open>nan\<close>), or a \<^verbatim>\<open>ValueError\<close>.
  A \<^verbatim>\<open>SERIES_2D\<close> element is its \<^verbatim>\<open>Name\<close> attribute, if it has one, and its children
  in document order.
\<close>

datatype part = Number float64 | Text

type_synonym item = "part list option"

record element =
  attrib_Name :: "string option"
  items :: "item list"

text \<open>
  What \<^verbatim>\<open>ET.parse\<close> finds at a path: either something that is not a well-formed
  document (an empty or truncated file), or a document, given here by the list that
  \<^verbatim>\<open>root.findall('.//SERIES_2D')\<close> returns, in document order.
\<close>

datatype xcd = Unparseable | Tree "element list"

definition ET_parse :: "xcd \<Rightarrow> error + element list" where
  "ET_parse path = (case path of Unparseable \<Rightarrow> Inl ParseError | Tree series \<Rightarrow> Inr series)"

text \<open>\<^verbatim>\<open>item.attrib['XY']\<close>, already split at the commas.\<close>

definition attrib_XY :: "item \<Rightarrow> error + part list" where
  "attrib_XY it = (case it of None \<Rightarrow> Inl (KeyError ''XY'') | Some pieces \<Rightarrow> Inr pieces)"

text \<open>\<^verbatim>\<open>float(pieces[k])\<close>.\<close>

definition float_piece :: "nat \<Rightarrow> part list \<Rightarrow> error + float64" where
  "float_piece k pieces =
     (if k < length pieces
      then (case pieces ! k of Number v \<Rightarrow> Inr v | Text \<Rightarrow> Inl ValueError)
      else Inl IndexError)"

text \<open>
  \<^verbatim>\<open>extract_dos\<close> looks its key up in the dict \<^verbatim>\<open>get\<close> and evaluates the list
  comprehension found there, item by item.
\<close>

definition extract_dos :: "element \<Rightarrow> string \<Rightarrow> error + ndarray" where
  "extract_dos band key =
     (if key = ''e'' then
        traverse (\<lambda>it. and_then (attrib_XY it) (float_piece 0)) (items band)
      else if key = ''dos'' then
        traverse (\<lambda>it. and_then (attrib_XY it) (float_piece 1)) (items band)
      else Inl (KeyError key))"

text \<open>
  \<^verbatim>\<open>band_extract\<close> assigns \<^verbatim>\<open>d_band_exists\<close> in the two branches only; with any
  other number of series the \<^verbatim>\<open>return\<close> reads a local that was never bound.
\<close>

definition band_extract :: "element list \<Rightarrow> error + ((string \<times> element) list \<times> bool)" where
  "band_extract root_el =
     (let bands = root_el in
      if length bands = 4 then
        Inr ([(''s_alpha'', bands ! 0), (''s_beta'', bands ! 1),
              (''p_alpha'', bands ! 2), (''p_beta'', bands ! 3)], False)
      else if length bands = 6 then
        Inr ([(''s_alpha'', bands ! 0), (''s_beta'', bands ! 1),
              (''p_alpha'', bands ! 2), (''p_beta'', bands ! 3),
              (''d_alpha'', bands ! 4), (''d_beta'', bands ! 5)], True)
      else Inl (UnboundLocalError ''d_band_exists''))"

subsection \<open>The pandas operations the program calls\<close>

type_synonym dataframe = "(string \<times> float64 list) list"

text \<open>\<^verbatim>\<open>pd.DataFrame.from_dict(d)\<close>: one column per key; the arrays must agree in length.\<close>

definition DataFrame_from_dict :: "dict \<Rightarrow> error + dataframe" where
  "DataFrame_from_dict d =
     (if list_all (\<lambda>(k, v). length v = length (snd (hd d))) d
      then Inr d
      else Inl ValueError)"

definition nrows :: "dataframe \<Rightarrow> nat" where
  "nrows df = (case df of [] \<Rightarrow> 0 | (k, v) # _ \<Rightarrow> length v)"

definition pad :: "nat \<Rightarrow> float64 list \<Rightarrow> float64 list" where
  "pad n v = v @ replicate (n - length v) NaN"

text \<open>
  \<^verbatim>\<open>pd.concat(objs, axis=1)\<close> on frames with the default row index: the columns side
  by side, each filled with NaN up to the longest frame.
\<close>

definition pd_concat :: "dataframe list \<Rightarrow> error + dataframe" where
  "pd_concat objs =
     (if objs = [] then Inl ValueError
      else Inr (concat (map (map (\<lambda>(k, v). (k, pad (foldr max (map nrows objs) 0) v))) objs)))"

subsection \<open>\<^verbatim>\<open>read_spin_dos.py\<close>: \<^verbatim>\<open>parse_xcd\<close>\<close>

text \<open>The expression \<^verbatim>\<open>extract_dos(bands[name], key)\<close>.\<close>

definition extracted :: "(string \<times> element) list \<Rightarrow> string \<Rightarrow> string \<Rightarrow> error + ndarray" where
  "extracted bands name key = and_then (getitem bands name) (\<lambda>band. extract_dos band key)"

text \<open>
  Lines 71 to 88: the dict \<^verbatim>\<open>DOS\<close> when there is no d band. The entries are evaluated
  in the order they are written; the first failure is the one raised.
\<close>

definition DOS_sp :: "(string \<times> element) list \<Rightarrow> error + (string \<times> dict) list" where
  "DOS_sp bands =
     and_then (extracted bands ''s_alpha'' ''e'') (\<lambda>sE_alpha.
     and_then (extracted bands ''s_alpha'' ''dos'') (\<lambda>s_alpha.
     and_then (extracted bands ''s_beta'' ''e'') (\<lambda>sE_beta.
     and_then (extracted bands ''s_beta'' ''dos'') (\<lambda>s_beta.
     and_then (extracted bands ''p_alpha'' ''e'') (\<lambda>pE_alpha.
     and_then (extracted bands ''p_alpha'' ''dos'') (\<lambda>p_alpha.
     and_then (extracted bands ''p_beta'' ''e'') (\<lambda>pE_beta.
     and_then (extracted bands ''p_beta'' ''dos'') (\<lambda>p_beta.
     Inr [(''s_alpha'', [(''sE_alpha'', sE_alpha), (''s_alpha'', s_alpha)]),
          (''s_beta'', [(''sE_beta'', sE_beta), (''s_beta'', mul_scalar s_beta (Num True 1))]),
          (''p_alpha'', [(''pE_alpha'', pE_alpha), (''p_alpha'', p_alpha)]),
          (''p_beta'', [(''pE_beta'', pE_beta),
                        (''p_beta'', mul_scalar p_beta (Num True 1))])]))))))))"

text \<open>
  Lines 90 to 125: the dict \<^verbatim>\<open>DOS\<close> with a d band, and the exchange of its d entries,
  which extracts the two d series once more.
\<close>

definition DOS_spd ::
  "(nat \<Rightarrow> addition) \<Rightarrow> (string \<times> element) list \<Rightarrow> error + (string \<times> dict) list" where
  "DOS_spd order bands =
     and_then (extracted bands ''s_alpha'' ''e'') (\<lambda>sE_alpha.
     and_then (extracted bands ''s_alpha'' ''dos'') (\<lambda>s_alpha.
     and_then (extracted bands ''s_beta'' ''e'') (\<lambda>sE_beta.
     and_then (extracted bands ''s_beta'' ''dos'') (\<lambda>s_beta.
     and_then (extracted bands ''p_alpha'' ''e'') (\<lambda>pE_alpha.
     and_then (extracted bands ''p_alpha'' ''dos'') (\<lambda>p_alpha.
     and_then (extracted bands ''p_beta'' ''e'') (\<lambda>pE_beta.
     and_then (extracted bands ''p_beta'' ''dos'') (\<lambda>p_beta.
     and_then (extracted bands ''d_alpha'' ''e'') (\<lambda>dE_alpha.
     and_then (extracted bands ''d_alpha'' ''dos'') (\<lambda>d_alpha.
     and_then (extracted bands ''d_beta'' ''e'') (\<lambda>dE_beta.
     and_then (extracted bands ''d_beta'' ''dos'') (\<lambda>d_beta.
     (let DOS0 =
        [(''s_alpha'', [(''sE_alpha'', sE_alpha), (''s_alpha'', s_alpha)]),
         (''s_beta'', [(''sE_beta'', sE_beta), (''s_beta'', mul_scalar s_beta (Num True 1))]),
         (''p_alpha'', [(''pE_alpha'', pE_alpha), (''p_alpha'', p_alpha)]),
         (''p_beta'', [(''pE_beta'', pE_beta), (''p_beta'', mul_scalar p_beta (Num True 1))]),
         (''d_alpha'', [(''dE_alpha'', dE_alpha), (''d_alpha'', d_alpha)]),
         (''d_beta'', [(''dE_beta'', dE_beta), (''d_beta'', mul_scalar d_beta (Num True 1))])]
      in
      and_then (getitem DOS0 ''d_alpha'') (\<lambda>alpha.
      and_then (getitem DOS0 ''d_beta'') (\<lambda>beta.
      and_then (check_ab order alpha beta) (\<lambda>swap.
      if swap then
        and_then (extracted bands ''d_beta'' ''e'') (\<lambda>e_of_beta.
        and_then (extracted bands ''d_beta'' ''dos'') (\<lambda>dos_of_beta.
        and_then (extracted bands ''d_alpha'' ''e'') (\<lambda>e_of_alpha.
        and_then (extracted bands ''d_alpha'' ''dos'') (\<lambda>dos_of_alpha.
        Inr (AList.update ''d_beta''
               [(''dE_beta'', e_of_alpha), (''d_beta'', dos_of_alpha)]
            (AList.update ''d_alpha''
               [(''dE_alpha'', e_of_beta), (''d_alpha'', mul_scalar dos_of_beta (Num True 1))]
             DOS0))))))
      else Inr DOS0))))))))))))))))"

definition parse_xcd :: "(nat \<Rightarrow> addition) \<Rightarrow> xcd \<Rightarrow> error + dataframe" where
  "parse_xcd order path =
     and_then (ET_parse path) (\<lambda>root_el.
     and_then (band_extract root_el) (\<lambda>(bands, d_band_exists).
     and_then (if d_band_exists = False then DOS_sp bands else DOS_spd order bands) (\<lambda>DOS.
     and_then (traverse DataFrame_from_dict (map snd DOS)) (\<lambda>df.
     pd_concat df))))"

subsection \<open>\<^verbatim>\<open>ReadDOS.py\<close>: the class \<^verbatim>\<open>XcdFile\<close>\<close>

text \<open>
  The constructor turns a parse failure into \<^verbatim>\<open>AttributeError\<close> and keys each series
  by the first character of its name; a later series with the same key replaces the
  earlier one. Only the attribute \<^verbatim>\<open>bands\<close> matters below.
\<close>

fun bands_dict ::
  "element list \<Rightarrow> (string \<times> element) list \<Rightarrow> error + (string \<times> element) list" where
  "bands_dict [] acc = Inr acc"
| "bands_dict (band # rest) acc =
     (case attrib_Name band of
        None \<Rightarrow> Inl (KeyError ''Name'')
      | Some name \<Rightarrow>
          if name = [] then Inl IndexError
          else bands_dict rest (AList.update [hd name] band acc))"

definition XcdFile_init :: "xcd \<Rightarrow> error + (string \<times> element) list" where
  "XcdFile_init path =
     (case ET_parse path of
        Inl empty_file \<Rightarrow> Inl AttributeError
      | Inr root_el \<Rightarrow> bands_dict root_el [])"

definition get_xy :: "(string \<times> element) list \<Rightarrow> string \<Rightarrow> error + (ndarray \<times> ndarray)" where
  "get_xy self band =
     and_then (getitem self band) (\<lambda>b.
     and_then (traverse attrib_XY (items b)) (\<lambda>xy.
     and_then (traverse (float_piece 0) xy) (\<lambda>x.
     and_then (traverse (float_piece 1) xy) (\<lambda>y.
     Inr (x, y)))))"

definition band_center ::
  "(nat \<Rightarrow> addition) \<Rightarrow> (string \<times> element) list \<Rightarrow> string \<Rightarrow> error + float64" where
  "band_center order self band =
     (if band \<notin> set [''s'', ''p'', ''d'', ''f''] then Inl ValueError
      else
        and_then (get_xy self band) (\<lambda>(x, y).
        and_then (trapz order y x) (\<lambda>pdE.
        and_then (broadcast (\<lambda>a b. fmul a b) y x) (\<lambda>yx.
        and_then (trapz order yx x) (\<lambda>pEdE.
        Inr (fdiv pEdE pdE))))))"

subsection \<open>\<^verbatim>\<open>read_spin_dos.py\<close>: the file order of \<^verbatim>\<open>get_dos\<close>\<close>

text \<open>\<^verbatim>\<open>sub in s\<close> on strings.\<close>

fun contains :: "string \<Rightarrow> string \<Rightarrow> bool" where
  "contains sub [] = (sub = [])"
| "contains sub (c # cs) = (if take (length sub) (c # cs) = sub then True else contains sub cs)"

text \<open>
  \<^verbatim>\<open>xs[::k]\<close> for a step \<open>k\<close> of at least one (the program uses 2 and 3); then
  \<^verbatim>\<open>xs[i::k]\<close> is \<open>stride k (drop i xs)\<close>.
\<close>

fun stride :: "nat \<Rightarrow> 'a list \<Rightarrow> 'a list" where
  "stride k [] = []"
| "stride k (x # xs) = x # stride k (drop (k - 1) xs)"

text \<open>
  Lines 133 to 159 of \<^verbatim>\<open>get_dos\<close>: from the result of \<^verbatim>\<open>os.listdir\<close> to the list
  \<^verbatim>\<open>new_filelist\<close>. A list sorted ascending and then sorted with \<^verbatim>\<open>reverse=True\<close> is
  the descending sorted list. The test of the last \<^verbatim>\<open>elif\<close> is the negation of the
  one before it, so it is the final \<open>else\<close> here. The rest of \<^verbatim>\<open>get_dos\<close> parses the
  files in this order and writes the tables.
\<close>

definition new_filelist :: "string list \<Rightarrow> error + string list" where
  "new_filelist listdir =
     (let filelist = sort listdir in
      if length filelist < 2 then Inl IndexError
      else if contains ''subsurface'' (filelist ! 1) \<and> contains ''bulk'' (filelist ! 0) then
        (let compressive = rev (sort (take 12 filelist));
             tensile = drop 12 filelist;
             sf = stride 3 (drop 2 tensile);
             subsf = stride 3 (drop 1 tensile);
             bk = stride 3 tensile;
             new_ten = map (\<lambda>i. [sf ! i, subsf ! i, bk ! i]) [0..<length sf]
         in Inr (compressive @ concat new_ten))
      else if contains ''surface'' (filelist ! 1) then
        (let compressive = rev (sort (take 8 filelist));
             tensile = drop 8 filelist;
             sf = stride 2 (drop 1 tensile);
             bk = stride 2 tensile;
             new_ten = concat (map (\<lambda>(s, b). [s, b]) (zip sf bk))
         in Inr (compressive @ new_ten))
      else
        (let compressive = rev (sort (take 4 filelist));
             tensile = drop 4 filelist
         in Inr (compressive @ tensile)))"

section \<open>Notions used to state the properties\<close>

text \<open>
  Two doubles are the same value when they are equal or both a zero (\<^verbatim>\<open>0.0 == -0.0\<close>
  in Python); NaN counts as the same as NaN here. A double is mirrored by another when it
  is the same value as its negation.
\<close>

definition is_zero :: "float64 \<Rightarrow> bool" where
  "is_zero v = (case v of Num s m \<Rightarrow> m = 0 | _ \<Rightarrow> False)"

definition same_double :: "float64 \<Rightarrow> float64 \<Rightarrow> bool" where
  "same_double u v = (if is_zero u then is_zero v else u = v)"

definition mirror :: "float64 \<Rightarrow> float64 \<Rightarrow> bool" where
  "mirror u v = same_double u (fneg v)"

text \<open>
  The values an array can hold: a number of the model is a double when rounding leaves it
  as it is.
\<close>

definition is_double :: "float64 \<Rightarrow> bool" where
  "is_double v = (case v of Num s m \<Rightarrow> round_mag s m = Num s m | _ \<Rightarrow> True)"

text \<open>One order of summation: from the first element on, one element after the other.\<close>

fun one_by_one :: "nat \<Rightarrow> addition" where
  "one_by_one 0 = Zero False"
| "one_by_one (Suc 0) = Elem 0"
| "one_by_one (Suc (Suc n)) = Plus (one_by_one (Suc n)) (Elem (Suc n))"

text \<open>
  A well-formed series: each child has an \<^verbatim>\<open>XY\<close> attribute of two numbers. As an
  element of a document it is \<open>of_series\<close>.
\<close>

record series =
  Name :: string
  XY :: "(float64 \<times> float64) list"

definition of_series :: "series \<Rightarrow> element" where
  "of_series b =
     \<lparr>attrib_Name = Some (Name b),
      items = map (\<lambda>(x, y). Some [Number x, Number y]) (XY b)\<rparr>"

text \<open>The number of rows of the table of a document: the length of its longest series.\<close>

definition rows :: "series list \<Rightarrow> nat" where
  "rows bands = foldr max (map (\<lambda>b. length (XY b)) bands) 0"

text \<open>
  What the two regroupings of \<^verbatim>\<open>get_dos\<close> compute, written by recursion: every complete
  group of three (of two) entries comes out reversed, an incomplete last group is dropped.
\<close>

fun triples :: "'a list \<Rightarrow> 'a list" where
  "triples (a # b # c # rest) = c # b # a # triples rest"
| "triples _ = []"

fun pairs :: "'a list \<Rightarrow> 'a list" where
  "pairs (a # b # rest) = b # a # pairs rest"
| "pairs _ = []"

text \<open>
  Sample series of two points: \<open>segment x0 y0 x1 y1\<close> holds the doubles nearest to the
  four numbers, and \<open>flat lo hi h\<close> is the segment of constant height \<open>h\<close> between the
  energies \<open>lo\<close> and \<open>hi\<close>, whose band center is the midpoint of the two energies.
\<close>

definition segment :: "rat \<Rightarrow> rat \<Rightarrow> rat \<Rightarrow> rat \<Rightarrow> series" where
  "segment x0 y0 x1 y1 = \<lparr>Name = ''band'', XY = [(f64 x0, f64 y0), (f64 x1, f64 y1)]\<rparr>"

definition flat :: "rat \<Rightarrow> rat \<Rightarrow> rat \<Rightarrow> series" where
  "flat lo hi h = segment lo h hi h"



section \<open>Properties\<close>

subsection \<open>Auxiliary facts about the doubles\<close>

lemma and_then_simps [simp]:
  "and_then (Inl e) f = Inl e" "and_then (Inr v) f = f v"
  by (simp_all add: and_then_def)

lemma round_mag_neq_NaN [simp]: "round_mag s m \<noteq> NaN"
  by (auto simp: round_mag_def Let_def)

lemma round_mag_flip: "round_mag (\<not> s) m = fneg (round_mag s m)"
  unfolding round_mag_def Let_def
  by (cases "m \<le> 0";
      cases "1024 \<le> ilog2 m \<or>
             ilog2 m = 1023 \<and> round_half_even (m / pow2 (max (ilog2 m) (- 1022) - 52)) = 2 ^ 53")
     (simp_all only: if_True if_False fneg.simps)

lemma is_zero_simps [simp]:
  "is_zero (Num s m) = (m = 0)" "is_zero (Inf s) = False" "is_zero NaN = False"
  by (simp_all add: is_zero_def)

lemma is_zero_fneg [simp]: "is_zero (fneg v) = is_zero v"
  by (cases v) simp_all

lemma fneg_fneg [simp]: "fneg (fneg v) = v"
  by (cases v) simp_all

lemma is_zero_round_mag_flip: "is_zero (round_mag (\<not> s) m) = is_zero (round_mag s m)"
  by (simp add: round_mag_flip)

lemma same_double_refl [simp]: "same_double v v"
  by (simp add: same_double_def)

lemma same_double_fneg [simp]: "same_double (fneg u) (fneg v) = same_double u v"
  by (cases u; cases v) (auto simp: same_double_def)

lemma mirror_fneg [simp]: "mirror (fneg v) v"
  by (simp add: mirror_def)

lemma mirrorD: "mirror u v \<Longrightarrow> u = fneg v \<or> (is_zero u \<and> is_zero v)"
  by (auto simp: mirror_def same_double_def split: if_splits)

lemma mirrorI: "u = fneg v \<or> (is_zero u \<and> is_zero v) \<Longrightarrow> mirror u v"
  by (auto simp: mirror_def same_double_def)

lemma is_zeroE: "is_zero v \<Longrightarrow> \<exists>s. v = Num s 0"
  by (cases v) simp_all

lemma val_flip: "val (\<not> s) m = - val s m"
  by (simp add: val_def)

lemma fadd_fneg: "mirror (fadd (fneg a) (fneg b)) (fadd a b)"
proof (cases a)
  case (Num s m)
  note a = this
  show ?thesis
  proof (cases b)
    case (Num t n)
    define r where "r = val s m + val t n"
    have e: "val (\<not> s) m + val (\<not> t) n = - r"
      by (simp add: val_flip r_def)
    have "fadd (fneg a) (fneg b) =
        (let r' = - r in if r' = 0 then Num (\<not> s \<and> \<not> t) 0 else round_mag (r' < 0) \<bar>r'\<bar>)"
      unfolding a Num fneg.simps fadd.simps e ..
    then have l: "fadd (fneg a) (fneg b) =
        (if r = 0 then Num (\<not> s \<and> \<not> t) 0 else round_mag (0 < r) \<bar>r\<bar>)"
      by (simp add: Let_def)
    have rr: "fadd a b = (if r = 0 then Num (s \<and> t) 0 else round_mag (r < 0) \<bar>r\<bar>)"
      unfolding a Num fadd.simps r_def Let_def ..
    show ?thesis
    proof (cases "r = 0")
      case True
      then show ?thesis unfolding l rr by (intro mirrorI disjI2) simp
    next
      case False
      then have "(0 < r) = (\<not> r < 0)" by auto
      then have "round_mag (0 < r) \<bar>r\<bar> = fneg (round_mag (r < 0) \<bar>r\<bar>)"
        by (simp only: round_mag_flip)
      then show ?thesis unfolding l rr using False by (intro mirrorI disjI1) simp
    qed
  qed (simp_all add: a mirror_def same_double_def)
qed (cases b; simp add: mirror_def same_double_def)+

lemma fadd_zero_left: "is_zero a \<Longrightarrow> is_zero a' \<Longrightarrow> \<not> is_zero b \<Longrightarrow> fadd a b = fadd a' b"
  by (cases a; cases a'; cases b) (simp_all add: val_def)

lemma fadd_zero_right: "is_zero b \<Longrightarrow> is_zero b' \<Longrightarrow> \<not> is_zero a \<Longrightarrow> fadd a b = fadd a b'"
  by (cases a; cases b; cases b') (simp_all add: val_def)

lemma fadd_zero_zero: "is_zero a \<Longrightarrow> is_zero b \<Longrightarrow> is_zero (fadd a b)"
  by (cases a; cases b) (simp_all add: val_def)

lemma fadd_mirror:
  assumes "mirror a a'" and "mirror b b'"
  shows "mirror (fadd a b) (fadd a' b')"
proof -
  consider (nn) "a = fneg a'" "b = fneg b'"
    | (zn) "is_zero a" "is_zero a'" "b = fneg b'" "\<not> is_zero b'"
    | (nz) "a = fneg a'" "\<not> is_zero a'" "is_zero b" "is_zero b'"
    | (zz) "is_zero a" "is_zero a'" "is_zero b" "is_zero b'"
    using mirrorD [OF assms(1)] mirrorD [OF assms(2)] by (cases "is_zero a'"; cases "is_zero b'") auto
  then show ?thesis
  proof cases
    case nn
    then show ?thesis by (simp add: fadd_fneg)
  next
    case zn
    have "fadd a b = fadd (fneg a') (fneg b')"
      using zn by (intro trans [OF fadd_zero_left [of a "fneg a'"]]) simp_all
    then show ?thesis by (simp add: fadd_fneg)
  next
    case nz
    have "fadd a b = fadd (fneg a') (fneg b')"
      using nz by (intro trans [OF fadd_zero_right [of b "fneg b'"]]) simp_all
    then show ?thesis by (simp add: fadd_fneg)
  next
    case zz
    then show ?thesis by (intro mirrorI disjI2) (simp add: fadd_zero_zero)
  qed
qed

lemma fmul_fneg_left: "fmul (fneg a) b = fneg (fmul a b)"
  by (cases a; cases b) (auto simp: round_mag_flip [symmetric])

lemma fmul_fneg_right: "fmul a (fneg b) = fneg (fmul a b)"
  by (cases a; cases b) (auto simp: round_mag_flip [symmetric])

lemma fmul_zero_left: "is_zero a \<Longrightarrow> is_zero (fmul a b) \<or> fmul a b = NaN"
  by (cases a; cases b) (simp_all add: round_mag_def)

lemma fmul_zero_right: "is_zero b \<Longrightarrow> is_zero (fmul a b) \<or> fmul a b = NaN"
  by (cases a; cases b) (simp_all add: round_mag_def)

lemma fmul_zero_left_NaN: "is_zero a \<Longrightarrow> is_zero a' \<Longrightarrow> (fmul a b = NaN) = (fmul a' b = NaN)"
  by (cases a; cases a'; cases b) (simp_all add: round_mag_def)

lemma fmul_zero_right_NaN: "is_zero b \<Longrightarrow> is_zero b' \<Longrightarrow> (fmul a b = NaN) = (fmul a b' = NaN)"
  by (cases a; cases b; cases b') (simp_all add: round_mag_def)

lemma fmul_mirror_left: "mirror a a' \<Longrightarrow> mirror (fmul a b) (fmul a' b)"
  using fmul_zero_left [of a b] fmul_zero_left [of a' b] fmul_zero_left_NaN [of a a' b]
  by (auto dest!: mirrorD intro!: mirrorI simp: fmul_fneg_left)

lemma fmul_mirror_right: "mirror b b' \<Longrightarrow> mirror (fmul a b) (fmul a b')"
  using fmul_zero_right [of b a] fmul_zero_right [of b' a] fmul_zero_right_NaN [of b b' a]
  by (auto dest!: mirrorD intro!: mirrorI simp: fmul_fneg_right)

lemma fdiv_fneg_left: "fdiv (fneg a) b = fneg (fdiv a b)"
  by (cases a; cases b) (auto simp: round_mag_flip [symmetric])

lemma fdiv_fneg_right: "fdiv a (fneg b) = fneg (fdiv a b)"
  by (cases a; cases b) (auto simp: round_mag_flip [symmetric])

lemma fdiv_zero_left: "is_zero a \<Longrightarrow> is_zero (fdiv a b) \<or> fdiv a b = NaN"
  by (cases a; cases b) (simp_all add: round_mag_def)

lemma fdiv_zero_left_NaN: "is_zero a \<Longrightarrow> is_zero a' \<Longrightarrow> (fdiv a b = NaN) = (fdiv a' b = NaN)"
  by (cases a; cases a'; cases b) (simp_all add: round_mag_def)

lemma fdiv_mirror_left: "mirror a a' \<Longrightarrow> mirror (fdiv a b) (fdiv a' b)"
  using fdiv_zero_left [of a b] fdiv_zero_left [of a' b] fdiv_zero_left_NaN [of a a' b]
  by (auto dest!: mirrorD intro!: mirrorI simp: fdiv_fneg_left)

lemma fdiv_mirror_both:
  assumes "mirror a a'" and "mirror b b'" and "\<not> is_zero b'"
  shows "same_double (fdiv a b) (fdiv a' b')"
proof -
  have b: "b = fneg b'" using mirrorD [OF assms(2)] assms(3) by auto
  have "mirror (fdiv a b') (fdiv a' b')" using assms(1) by (rule fdiv_mirror_left)
  then have "mirror (fneg (fdiv a b)) (fdiv a' b')"
    by (simp add: b fdiv_fneg_right)
  then show ?thesis
    by (simp add: mirror_def)
qed

lemma gt_same_double: "same_double b b' \<Longrightarrow> gt a b = gt a b'"
  by (cases a; cases b; cases b') (auto simp: same_double_def val_def split: if_splits)

subsection \<open>Auxiliary facts about the integrals and the band center\<close>

lemma list_all2_tl: "list_all2 P xs ys \<Longrightarrow> list_all2 P (tl xs) (tl ys)"
  by (cases xs; cases ys) simp_all

lemma list_all2_butlast: "list_all2 P xs ys \<Longrightarrow> list_all2 P (butlast xs) (butlast ys)"
  by (simp add: butlast_conv_take list_all2_takeI list_all2_lengthD)

lemma list_all2_zip_with:
  assumes "list_all2 P xs xs'" and "list_all2 Q ys ys'"
    and "\<And>a a' b b'. P a a' \<Longrightarrow> Q b b' \<Longrightarrow> R (f a b) (g a' b')"
  shows "list_all2 R (map2 f xs ys) (map2 g xs' ys')"
  using assms(1,2)
proof (induction xs xs' arbitrary: ys ys' rule: list_all2_induct)
  case Nil
  then show ?case by simp
next
  case (Cons a xs a' xs')
  from Cons.prems show ?case
    by (cases ys; cases ys') (simp_all add: Cons.hyps Cons.IH assms(3))
qed

lemma list_all2_map_both:
  assumes "list_all2 P xs ys" and "\<And>a b. P a b \<Longrightarrow> Q (f a) (g b)"
  shows "list_all2 Q (map f xs) (map g ys)"
  using assms(1) by (induction rule: list_all2_induct) (simp_all add: assms(2))

lemma list_all2_same: "list_all2 (=) xs xs"
  by (simp add: list.rel_eq)

lemma broadcast_mirror_right:
  assumes "list_all2 mirror s' s"
  shows "rel_sum (=) (list_all2 mirror) (broadcast fmul d s') (broadcast fmul d s)"
proof -
  have len: "length s' = length s" using assms by (rule list_all2_lengthD)
  have hd: "mirror (hd s') (hd s)" if "length s = 1"
    using assms that by (cases s; cases s') simp_all
  have m2: "list_all2 mirror (map2 fmul d s') (map2 fmul d s)"
    by (rule list_all2_zip_with [OF list_all2_same assms]) (simp add: fmul_mirror_right)
  have m1: "list_all2 mirror (map (fmul (hd d)) s') (map (fmul (hd d)) s)"
    using assms by (rule list_all2_map_both) (rule fmul_mirror_right)
  have m3: "list_all2 mirror (map (\<lambda>v. fmul v (hd s')) d) (map (\<lambda>v. fmul v (hd s)) d)"
    if "length s = 1"
    by (rule list_all2_map_both [OF list_all2_same]) (simp add: hd [OF that] fmul_mirror_right)
  show ?thesis
    using m1 m2 m3 by (simp add: broadcast_def len)
qed

lemma broadcast_mirror_left:
  assumes "list_all2 mirror y' y"
  shows "rel_sum (=) (list_all2 mirror) (broadcast fmul y' x) (broadcast fmul y x)"
proof -
  have len: "length y' = length y" using assms by (rule list_all2_lengthD)
  have hd: "mirror (hd y') (hd y)" if "length y = 1"
    using assms that by (cases y; cases y') simp_all
  have m2: "list_all2 mirror (map2 fmul y' x) (map2 fmul y x)"
    by (rule list_all2_zip_with [OF assms list_all2_same]) (simp add: fmul_mirror_left)
  have m1: "list_all2 mirror (map (fmul (hd y')) x) (map (fmul (hd y)) x)"
    if "length y = 1"
    by (rule list_all2_map_both [OF list_all2_same]) (simp add: hd [OF that] fmul_mirror_left)
  have m3: "list_all2 mirror (map (\<lambda>v. fmul v (hd x)) y') (map (\<lambda>v. fmul v (hd x)) y)"
    using assms by (rule list_all2_map_both) (rule fmul_mirror_left)
  show ?thesis
    using m1 m2 m3 by (simp add: broadcast_def len)
qed

lemma run_mirror:
  assumes "list_all2 mirror a' a"
  shows "mirror (run t a') (run t a)"
proof (induction t)
  case (Elem i)
  show ?case
  proof (cases "i < length a")
    case True
    then have "mirror (a' ! i) (a ! i)"
      using assms list_all2_lengthD [OF assms] by (simp add: list_all2_nthD)
    then show ?thesis using True list_all2_lengthD [OF assms] by simp
  next
    case False
    then show ?thesis using list_all2_lengthD [OF assms] by (simp add: mirror_def same_double_def)
  qed
next
  case (Zero s)
  show ?case by (simp add: mirror_def same_double_def)
next
  case (Plus l r)
  then show ?case by (simp add: fadd_mirror)
qed

lemma np_sum_mirror: "list_all2 mirror a' a \<Longrightarrow> mirror (np_sum order a') (np_sum order a)"
  using run_mirror [of a' a] by (simp add: np_sum_def list_all2_lengthD)

lemma trapz_mirror:
  assumes "list_all2 mirror y' y"
  shows "rel_sum (=) mirror (trapz order y' x) (trapz order y x)"
proof -
  let ?s' = "map2 fadd (tl y') (butlast y')" and ?s = "map2 fadd (tl y) (butlast y)"
  have "list_all2 mirror ?s' ?s"
    by (rule list_all2_zip_with [OF list_all2_tl [OF assms] list_all2_butlast [OF assms]])
       (rule fadd_mirror)
  then have b: "rel_sum (=) (list_all2 mirror) (broadcast fmul (diff x) ?s') (broadcast fmul (diff x) ?s)"
    by (rule broadcast_mirror_right)
  show ?thesis
  proof (cases "broadcast fmul (diff x) ?s")
    case (Inl e)
    then show ?thesis using b by (cases "broadcast fmul (diff x) ?s'") (simp_all add: trapz_def)
  next
    case (Inr p)
    then obtain p' where p': "broadcast fmul (diff x) ?s' = Inr p'" and pp: "list_all2 mirror p' p"
      using b by (cases "broadcast fmul (diff x) ?s'") simp_all
    have "list_all2 mirror (map (\<lambda>v. fdiv v (Num False 2)) p') (map (\<lambda>v. fdiv v (Num False 2)) p)"
      using pp by (rule list_all2_map_both) (rule fdiv_mirror_left)
    then show ?thesis using Inr p' by (simp add: trapz_def np_sum_mirror)
  qed
qed

lemma dcenter_mirror:
  assumes "list_all2 mirror y' y" and "trapz order y x = Inr I" and "\<not> is_zero I"
  shows "rel_sum (=) same_double (dcenter order x y') (dcenter order x y)"
proof -
  obtain I' where I': "trapz order y' x = Inr I'" and II: "mirror I' I"
    using trapz_mirror [OF assms(1), of order x] assms(2)
    by (cases "trapz order y' x") simp_all
  have b: "rel_sum (=) (list_all2 mirror) (broadcast fmul y' x) (broadcast fmul y x)"
    using assms(1) by (rule broadcast_mirror_left)
  show ?thesis
  proof (cases "broadcast fmul y x")
    case (Inl e)
    then show ?thesis using b I' assms(2)
      by (cases "broadcast fmul y' x") (simp_all add: dcenter_def)
  next
    case (Inr yx)
    then obtain yx' where yx': "broadcast fmul y' x = Inr yx'" and m: "list_all2 mirror yx' yx"
      using b by (cases "broadcast fmul y' x") simp_all
    have t: "rel_sum (=) mirror (trapz order yx' x) (trapz order yx x)"
      using m by (rule trapz_mirror)
    show ?thesis
    proof (cases "trapz order yx x")
      case (Inl e)
      then show ?thesis using t Inr yx' I' assms(2)
        by (cases "trapz order yx' x") (simp_all add: dcenter_def)
    next
      case J: (Inr J)
      then obtain J' where J': "trapz order yx' x = Inr J'" and JJ: "mirror J' J"
        using t by (cases "trapz order yx' x") simp_all
      show ?thesis
        using Inr yx' I' assms(2) J J' fdiv_mirror_both [OF JJ II assms(3)]
        by (simp add: dcenter_def)
    qed
  qed
qed

lemma fmul_minus_one: "is_double v \<Longrightarrow> fmul v (Num True 1) = fneg v"
  by (cases v) (simp_all add: is_double_def round_mag_flip)

lemma mul_scalar_minus_one:
  "list_all is_double y \<Longrightarrow> mul_scalar y (Num True 1) = map fneg y"
  by (induction y) (simp_all add: mul_scalar_def fmul_minus_one)

lemma list_all2_mirror_fneg: "list_all2 mirror (map fneg y) y"
  by (induction y) simp_all

lemma dcenter_negated:
  assumes "list_all is_double y" and "trapz order y x = Inr I" and "\<not> is_zero I"
  shows "rel_sum (=) same_double (dcenter order x (mul_scalar y (Num True 1))) (dcenter order x y)"
  using dcenter_mirror [OF list_all2_mirror_fneg assms(2,3)] mul_scalar_minus_one [OF assms(1)]
  by simp

lemma broadcast_same_length:
  "length a = length b \<Longrightarrow> broadcast f a b = Inr (map2 f a b)"
  by (simp add: broadcast_def)

lemma length_diff: "length (diff x) = length x - 1"
  by (simp add: diff_def)

lemma trapz_total: "length x = length y \<Longrightarrow> \<exists>I. trapz order y x = Inr I"
  by (simp add: trapz_def broadcast_same_length length_diff)

lemma dcenter_same_length:
  assumes "length x = length y" and "trapz order y x = Inr pdE"
  shows "\<exists>pEdE. trapz order (map2 fmul y x) x = Inr pEdE \<and>
                dcenter order x y = Inr (fdiv pEdE pdE)"
proof -
  obtain pEdE where p: "trapz order (map2 fmul y x) x = Inr pEdE"
    using trapz_total [of x "map2 fmul y x" order] assms(1) by auto
  have "dcenter order x y = Inr (fdiv pEdE pdE)"
    using assms p by (simp add: dcenter_def broadcast_same_length)
  with p show ?thesis by blast
qed

lemma dcenter_total:
  assumes "length x = length y"
  shows "\<exists>c. dcenter order x y = Inr c"
proof -
  obtain I where "trapz order y x = Inr I" using trapz_total [OF assms] by blast
  then show ?thesis using dcenter_same_length [OF assms] by blast
qed

lemma dcenter_Num_D:
  assumes "dcenter order x y = Inr (Num s m)"
  shows "\<exists>I. trapz order y x = Inr I \<and> \<not> is_zero I"
proof (cases "trapz order y x")
  case (Inl e)
  then show ?thesis using assms by (simp add: dcenter_def)
next
  case (Inr I)
  have "\<not> is_zero I"
  proof
    assume z: "is_zero I"
    then obtain t where I: "I = Num t 0" using is_zeroE by blast
    show False
    proof (cases "broadcast fmul y x")
      case (Inl e)
      then show ?thesis using assms Inr by (simp add: dcenter_def)
    next
      case yx: (Inr yx)
      show ?thesis
      proof (cases "trapz order yx x")
        case (Inl e)
        then show ?thesis using assms Inr yx by (simp add: dcenter_def)
      next
        case J: (Inr J)
        then show ?thesis using assms Inr yx I
          by (cases J) (simp_all add: dcenter_def split: if_splits)
      qed
    qed
  qed
  with Inr show ?thesis by blast
qed





subsection \<open>Auxiliary facts about the table and the file order\<close>

lemma traverse_of_series:
  "traverse (\<lambda>it. and_then (attrib_XY it) (float_piece 0))
     (map (\<lambda>(x, y). Some [Number x, Number y]) ps) = Inr (map fst ps)"
  "traverse (\<lambda>it. and_then (attrib_XY it) (float_piece (Suc 0)))
     (map (\<lambda>(x, y). Some [Number x, Number y]) ps) = Inr (map snd ps)"
  by (induction ps) (simp_all add: attrib_XY_def float_piece_def split_def)

lemma extract_dos_of_series:
  "extract_dos (of_series b) ''e'' = Inr (map fst (XY b))"
  "extract_dos (of_series b) ''dos'' = Inr (map snd (XY b))"
  by (simp_all add: extract_dos_def of_series_def traverse_of_series)

lemma length_mul_scalar: "length (mul_scalar y c) = length y"
  by (simp add: mul_scalar_def)

lemma frame_of_pair:
  "length v = length w \<Longrightarrow> DataFrame_from_dict [(k1, v), (k2, w)] = Inr [(k1, v), (k2, w)]"
  by (simp add: DataFrame_from_dict_def)

lemma band_extract_four:
  "band_extract [b0, b1, b2, b3] =
     Inr ([(''s_alpha'', b0), (''s_beta'', b1), (''p_alpha'', b2), (''p_beta'', b3)], False)"
  by (simp add: band_extract_def)

lemma band_extract_six:
  "band_extract [b0, b1, b2, b3, b4, b5] =
     Inr ([(''s_alpha'', b0), (''s_beta'', b1), (''p_alpha'', b2), (''p_beta'', b3),
           (''d_alpha'', b4), (''d_beta'', b5)], True)"
  by (simp add: band_extract_def)

lemma band_extract_other:
  "length bands \<noteq> 4 \<Longrightarrow> length bands \<noteq> 6 \<Longrightarrow>
   band_extract bands = Inl (UnboundLocalError ''d_band_exists'')"
  by (simp add: band_extract_def)

lemma DOS_sp_four:
  "DOS_sp [(''s_alpha'', of_series b0), (''s_beta'', of_series b1),
           (''p_alpha'', of_series b2), (''p_beta'', of_series b3)] =
     Inr [(''s_alpha'', [(''sE_alpha'', map fst (XY b0)), (''s_alpha'', map snd (XY b0))]),
          (''s_beta'', [(''sE_beta'', map fst (XY b1)),
                        (''s_beta'', mul_scalar (map snd (XY b1)) (Num True 1))]),
          (''p_alpha'', [(''pE_alpha'', map fst (XY b2)), (''p_alpha'', map snd (XY b2))]),
          (''p_beta'', [(''pE_beta'', map fst (XY b3)),
                        (''p_beta'', mul_scalar (map snd (XY b3)) (Num True 1))])]"
  by (simp add: DOS_sp_def extracted_def getitem_def extract_dos_of_series)

lemma DOS_spd_six:
  assumes "check_ab order [(''dE_alpha'', map fst (XY b4)), (''d_alpha'', map snd (XY b4))]
                    [(''dE_beta'', map fst (XY b5)),
                     (''d_beta'', mul_scalar (map snd (XY b5)) (Num True 1))] = Inr sw"
  shows "DOS_spd order
           [(''s_alpha'', of_series b0), (''s_beta'', of_series b1),
            (''p_alpha'', of_series b2), (''p_beta'', of_series b3),
            (''d_alpha'', of_series b4), (''d_beta'', of_series b5)] =
     Inr [(''s_alpha'', [(''sE_alpha'', map fst (XY b0)), (''s_alpha'', map snd (XY b0))]),
          (''s_beta'', [(''sE_beta'', map fst (XY b1)),
                        (''s_beta'', mul_scalar (map snd (XY b1)) (Num True 1))]),
          (''p_alpha'', [(''pE_alpha'', map fst (XY b2)), (''p_alpha'', map snd (XY b2))]),
          (''p_beta'', [(''pE_beta'', map fst (XY b3)),
                        (''p_beta'', mul_scalar (map snd (XY b3)) (Num True 1))]),
          (''d_alpha'', if sw then [(''dE_alpha'', map fst (XY b5)),
                                    (''d_alpha'', mul_scalar (map snd (XY b5)) (Num True 1))]
                        else [(''dE_alpha'', map fst (XY b4)), (''d_alpha'', map snd (XY b4))]),
          (''d_beta'', if sw then [(''dE_beta'', map fst (XY b4)), (''d_beta'', map snd (XY b4))]
                       else [(''dE_beta'', map fst (XY b5)),
                             (''d_beta'', mul_scalar (map snd (XY b5)) (Num True 1))])]"
  using assms by (simp add: DOS_spd_def extracted_def getitem_def extract_dos_of_series Let_def)

lemma parse_xcd_four:
  "parse_xcd order (Tree (map of_series [b0, b1, b2, b3])) =
     Inr (map (\<lambda>(k, v). (k, pad (rows [b0, b1, b2, b3]) v))
         [(''sE_alpha'', map fst (XY b0)),
          (''s_alpha'', map snd (XY b0)),
          (''sE_beta'', map fst (XY b1)),
          (''s_beta'', mul_scalar (map snd (XY b1)) (Num True 1)),
          (''pE_alpha'', map fst (XY b2)),
          (''p_alpha'', map snd (XY b2)),
          (''pE_beta'', map fst (XY b3)),
          (''p_beta'', mul_scalar (map snd (XY b3)) (Num True 1))])"
  by (simp add: parse_xcd_def ET_parse_def band_extract_four DOS_sp_four frame_of_pair
      length_mul_scalar pd_concat_def nrows_def rows_def)

lemma parse_xcd_six:
  assumes "check_ab order [(''dE_alpha'', map fst (XY b4)), (''d_alpha'', map snd (XY b4))]
                    [(''dE_beta'', map fst (XY b5)),
                     (''d_beta'', mul_scalar (map snd (XY b5)) (Num True 1))] = Inr sw"
  shows "parse_xcd order (Tree (map of_series [b0, b1, b2, b3, b4, b5])) =
     Inr (map (\<lambda>(k, v). (k, pad (rows [b0, b1, b2, b3, b4, b5]) v))
         [(''sE_alpha'', map fst (XY b0)),
          (''s_alpha'', map snd (XY b0)),
          (''sE_beta'', map fst (XY b1)),
          (''s_beta'', mul_scalar (map snd (XY b1)) (Num True 1)),
          (''pE_alpha'', map fst (XY b2)),
          (''p_alpha'', map snd (XY b2)),
          (''pE_beta'', map fst (XY b3)),
          (''p_beta'', mul_scalar (map snd (XY b3)) (Num True 1)),
          (''dE_alpha'', if sw then map fst (XY b5) else map fst (XY b4)),
          (''d_alpha'', if sw then mul_scalar (map snd (XY b5)) (Num True 1) else map snd (XY b4)),
          (''dE_beta'', if sw then map fst (XY b4) else map fst (XY b5)),
          (''d_beta'', if sw then map snd (XY b4) else mul_scalar (map snd (XY b5)) (Num True 1))])"
proof -
  have r: "max (length (XY b5)) (length (XY b4)) = max (length (XY b4)) (length (XY b5))"
    by (rule max.commute)
  show ?thesis
    by (cases sw)
       (simp_all add: parse_xcd_def ET_parse_def band_extract_six DOS_spd_six [OF assms]
          frame_of_pair length_mul_scalar pd_concat_def nrows_def rows_def r)
qed

lemma check_ab_total:
  "\<exists>sw. check_ab order [(''dE_alpha'', map fst (XY b4)), (''d_alpha'', map snd (XY b4))]
                  [(''dE_beta'', map fst (XY b5)),
                   (''d_beta'', mul_scalar (map snd (XY b5)) (Num True 1))] = Inr sw"
proof -
  obtain ca where a: "dcenter order (map fst (XY b4)) (map snd (XY b4)) = Inr ca"
    using dcenter_total [of "map fst (XY b4)" "map snd (XY b4)"] by auto
  obtain cb where b: "dcenter order (map fst (XY b5)) (mul_scalar (map snd (XY b5)) (Num True 1)) = Inr cb"
    using dcenter_total [of "map fst (XY b5)" "mul_scalar (map snd (XY b5)) (Num True 1)"]
    by (auto simp: length_mul_scalar)
  show ?thesis using a b by (simp add: check_ab_def getitem_def)
qed

lemma check_ab_numbers:
  assumes "list_all is_double y_b"
    and "dcenter order x_a y_a = Inr ca" and "dcenter order x_b y_b = Inr (Num t n)"
  shows "check_ab order [(''dE_alpha'', x_a), (''d_alpha'', y_a)]
                  [(''dE_beta'', x_b), (''d_beta'', mul_scalar y_b (Num True 1))]
         = Inr (gt ca (Num t n))"
proof -
  obtain I where I: "trapz order y_b x_b = Inr I" "\<not> is_zero I"
    using dcenter_Num_D [OF assms(3)] by blast
  obtain cb' where c: "dcenter order x_b (mul_scalar y_b (Num True 1)) = Inr cb'"
    and s: "same_double cb' (Num t n)"
    using dcenter_negated [OF assms(1) I] assms(3)
    by (cases "dcenter order x_b (mul_scalar y_b (Num True 1))") simp_all
  show ?thesis
    using assms(2) c gt_same_double [OF s, of ca] by (simp add: check_ab_def getitem_def)
qed

lemma traverse_XY_of_series:
  "traverse attrib_XY (map (\<lambda>(x, y). Some [Number x, Number y]) ps)
     = Inr (map (\<lambda>(x, y). [Number x, Number y]) ps)"
  by (induction ps) (simp_all add: attrib_XY_def split_def)

lemma traverse_pieces_of_series:
  "traverse (float_piece 0) (map (\<lambda>(x, y). [Number x, Number y]) ps) = Inr (map fst ps)"
  "traverse (float_piece (Suc 0)) (map (\<lambda>(x, y). [Number x, Number y]) ps) = Inr (map snd ps)"
  by (induction ps) (simp_all add: float_piece_def split_def)

lemma get_xy_of_series:
  "getitem self band = Inr (of_series b) \<Longrightarrow>
   get_xy self band = Inr (map fst (XY b), map snd (XY b))"
  by (simp add: get_xy_def of_series_def traverse_XY_of_series traverse_pieces_of_series)

lemma band_center_eq_dcenter:
  assumes "band \<in> set [''s'', ''p'', ''d'', ''f'']" and "getitem self band = Inr (of_series b)"
  shows "band_center order self band = dcenter order (map fst (XY b)) (map snd (XY b))"
  using assms by (simp add: band_center_def get_xy_of_series dcenter_def del: set_simps)

lemma map_upt_Suc_shift: "map f [0..<Suc n] = f 0 # map (\<lambda>i. f (Suc i)) [0..<n]"
  by (simp add: upt_conv_Cons map_Suc_upt [symmetric] del: upt_Suc)

lemma regroup_triples:
  "concat (map (\<lambda>i. [stride 3 (drop 2 t) ! i, stride 3 (drop (Suc 0) t) ! i, stride 3 t ! i])
             [0..<length (stride 3 (drop 2 t))]) = triples t"
proof (induction t rule: triples.induct)
  case (1 a b c rest)
  then show ?case by (simp add: map_upt_Suc_shift del: upt_Suc)
qed simp_all

text \<open>
  The list comprehension of the first layout indexes \<^verbatim>\<open>subsf\<close> and \<^verbatim>\<open>bk\<close> below
  the length of \<^verbatim>\<open>sf\<close>, which is the shortest of the three: no index is out of range.
\<close>

lemma stride_index_in_range:
  "length (stride 3 (drop 2 t)) \<le> length (stride 3 (drop (Suc 0) t)) \<and>
   length (stride 3 (drop (Suc 0) t)) \<le> length (stride 3 t)"
  by (induction t rule: triples.induct) simp_all

lemma regroup_pairs:
  "concat (map (\<lambda>(s, b). [s, b]) (zip (stride 2 (drop (Suc 0) t)) (stride 2 t))) = pairs t"
  by (induction t rule: pairs.induct) simp_all

lemma mset_triples: "length t mod 3 = 0 \<Longrightarrow> mset (triples t) = mset t"
  by (induction t rule: triples.induct) simp_all

lemma mset_pairs: "length t mod 2 = 0 \<Longrightarrow> mset (pairs t) = mset t"
  by (induction t rule: pairs.induct) simp_all

lemma sort_cong_mset: "mset l1 = mset l2 \<Longrightarrow> sort l1 = sort (l2 :: string list)"
  by (rule properties_for_sort) simp_all

lemma sort_take_sorted: "sort (take n (sort (l :: string list))) = take n (sort l)"
  by (simp add: sorted_sort_id)

lemma new_filelist_cases:
  assumes "2 \<le> length l"
  shows "new_filelist l =
    Inr (if contains ''subsurface'' (sort l ! 1) \<and> contains ''bulk'' (sort l ! 0)
         then rev (take 12 (sort l)) @ triples (drop 12 (sort l))
         else if contains ''surface'' (sort l ! 1)
         then rev (take 8 (sort l)) @ pairs (drop 8 (sort l))
         else rev (take 4 (sort l)) @ drop 4 (sort l))"
  using assms
  by (simp add: new_filelist_def Let_def regroup_triples regroup_pairs sort_take_sorted del: drop_drop)

lemma mset_take_drop: "mset (take n xs) + mset (drop n xs) = mset xs"
  by (metis append_take_drop_id mset_append)

subsection \<open>The band center\<close>

text \<open>
  Claim C4, as the code has it. For a curve whose two axes have the same length,
  \<^verbatim>\<open>dcenter\<close> never raises, in whatever order the terms of the two integrals are added.
  When the denominator integral \<^verbatim>\<open>np.trapz(y, x)\<close>, as the doubles give it, is a zero, the
  result is NaN or an infinity, returned as an ordinary value. When it is a finite double
  other than zero and the numerator integral is finite, the result is the quotient of the
  two rounded to a double (an infinity when the quotient overflows), and it is not NaN.
  \<^verbatim>\<open>XcdFile.band_center\<close> computes the same value for a band it holds.
\<close>

theorem dcenter_zero_integral_returns_nonfinite:
  assumes "length x = length y"
  shows "(\<exists>c. dcenter order x y = Inr c) \<and>
         (trapz order y x = Inr pdE \<and> is_zero pdE \<longrightarrow>
            dcenter order x y \<in> {Inr NaN, Inr (Inf False), Inr (Inf True)}) \<and>
         (trapz order y x = Inr (Num s m) \<and> m \<noteq> 0 \<and>
          trapz order (map2 fmul y x) x = Inr (Num t n) \<longrightarrow>
            dcenter order x y = Inr (round_mag (t \<noteq> s) (n / m)) \<and> dcenter order x y \<noteq> Inr NaN) \<and>
         (band \<in> set [''s'', ''p'', ''d'', ''f''] \<and> getitem self band = Inr (of_series b) \<and>
          x = map fst (XY b) \<and> y = map snd (XY b) \<longrightarrow>
            band_center order self band = dcenter order x y)"
proof (intro conjI impI)
  show "\<exists>c. dcenter order x y = Inr c" using assms by (rule dcenter_total)
next
  assume a: "trapz order y x = Inr pdE \<and> is_zero pdE"
  then obtain pEdE where d: "dcenter order x y = Inr (fdiv pEdE pdE)"
    using dcenter_same_length [OF assms, of order pdE] by blast
  obtain z where "pdE = Num z 0" using a is_zeroE by blast
  then show "dcenter order x y \<in> {Inr NaN, Inr (Inf False), Inr (Inf True)}"
    unfolding d by (cases pEdE) auto
next
  assume a: "trapz order y x = Inr (Num s m) \<and> m \<noteq> 0 \<and>
          trapz order (map2 fmul y x) x = Inr (Num t n)"
  then have d: "dcenter order x y = Inr (fdiv (Num t n) (Num s m))"
    using dcenter_same_length [OF assms, of order "Num s m"] by auto
  then show "dcenter order x y = Inr (round_mag (t \<noteq> s) (n / m))" using a by simp
  then show "dcenter order x y \<noteq> Inr NaN" by simp
next
  assume "band \<in> set [''s'', ''p'', ''d'', ''f''] \<and> getitem self band = Inr (of_series b) \<and>
          x = map fst (XY b) \<and> y = map snd (XY b)"
  then show "band_center order self band = dcenter order x y"
    using band_center_eq_dcenter by blast
qed

theorem dcenter_zero_integral_returns_nonfinite_witness:
  "length [f64 0, f64 1] = length [f64 0, f64 0] \<and>
   (\<exists>c. dcenter one_by_one [f64 0, f64 1] [f64 0, f64 0] = Inr c) \<and>
   trapz one_by_one [f64 0, f64 0] [f64 0, f64 1] = Inr (Num False 0) \<and>
   is_zero (Num False 0) \<and>
   dcenter one_by_one [f64 0, f64 1] [f64 0, f64 0] \<in> {Inr NaN, Inr (Inf False), Inr (Inf True)} \<and>
   length (map fst (XY (flat 0 2 1))) = length (map snd (XY (flat 0 2 1))) \<and>
   trapz one_by_one (map snd (XY (flat 0 2 1))) (map fst (XY (flat 0 2 1))) = Inr (Num False 2) \<and>
   (2 :: rat) \<noteq> 0 \<and>
   trapz one_by_one (map2 fmul (map snd (XY (flat 0 2 1))) (map fst (XY (flat 0 2 1))))
     (map fst (XY (flat 0 2 1))) = Inr (Num False 2) \<and>
   dcenter one_by_one (map fst (XY (flat 0 2 1))) (map snd (XY (flat 0 2 1)))
     = Inr (round_mag (False \<noteq> False) (2 / 2)) \<and>
   band_center one_by_one [(''d'', of_series (flat 0 2 1))] ''d''
     = dcenter one_by_one (map fst (XY (flat 0 2 1))) (map snd (XY (flat 0 2 1)))"
proof -
  have l0: "length [f64 0, f64 1] = length [f64 0, f64 0]" by simp
  have t0: "trapz one_by_one [f64 0, f64 0] [f64 0, f64 1] = Inr (Num False 0)" by code_simp
  have l1: "length (map fst (XY (flat 0 2 1))) = length (map snd (XY (flat 0 2 1)))" by simp
  have t1: "trapz one_by_one (map snd (XY (flat 0 2 1))) (map fst (XY (flat 0 2 1)))
            = Inr (Num False 2)" by code_simp
  have t2: "trapz one_by_one (map2 fmul (map snd (XY (flat 0 2 1))) (map fst (XY (flat 0 2 1))))
     (map fst (XY (flat 0 2 1))) = Inr (Num False 2)" by code_simp
  have g: "getitem [(''d'', of_series (flat 0 2 1))] ''d'' = Inr (of_series (flat 0 2 1))"
    by (simp add: getitem_def)
  show ?thesis
    using l0 t0 l1 t1 t2 g
      dcenter_zero_integral_returns_nonfinite [OF l0, of one_by_one "Num False 0"]
      dcenter_zero_integral_returns_nonfinite [OF l1, of one_by_one _ False 2 False 2 "''d''"
        "[(''d'', of_series (flat 0 2 1))]" "flat 0 2 1"]
    by simp
qed

theorem dcenter_zero_integral_counterexample:
  "trapz one_by_one [f64 0, f64 0] [f64 0, f64 1] = Inr (Num False 0) \<and>
   dcenter one_by_one [f64 0, f64 1] [f64 0, f64 0] = Inr NaN \<and>
   band_center one_by_one [(''d'', of_series (flat 0 1 0))] ''d'' = Inr NaN"
  by code_simp

text \<open>
  Claim C10. Take a curve of doubles whose denominator integral, as \<^verbatim>\<open>dcenter\<close> computes
  it, is not a zero. Negating its intensity axis leaves the result of \<^verbatim>\<open>dcenter\<close> the
  same number, in whatever order the terms are added: the two results are the same double,
  except that a zero may come with the other sign, which no comparison tells apart. Hence
  \<^verbatim>\<open>check_ab\<close>, which \<^verbatim>\<open>parse_xcd\<close> calls on the raw alpha entry and the negated beta
  entry, compares the band centers of the two raw curves.
\<close>

theorem dcenter_negation_invariant:
  assumes "list_all is_double y_b" and "trapz order y_b x_b = Inr I" and "\<not> is_zero I"
  shows "rel_sum (=) same_double
           (dcenter order x_b (mul_scalar y_b (Num True 1))) (dcenter order x_b y_b) \<and>
         check_ab order [(''dE_alpha'', x_a), (''d_alpha'', y_a)]
                  [(''dE_beta'', x_b), (''d_beta'', mul_scalar y_b (Num True 1))]
         = and_then (dcenter order x_a y_a) (\<lambda>dc_alpha.
           and_then (dcenter order x_b y_b) (\<lambda>dc_beta. Inr (gt dc_alpha dc_beta)))"
proof
  show r: "rel_sum (=) same_double
           (dcenter order x_b (mul_scalar y_b (Num True 1))) (dcenter order x_b y_b)"
    using assms by (rule dcenter_negated)
  show "check_ab order [(''dE_alpha'', x_a), (''d_alpha'', y_a)]
                  [(''dE_beta'', x_b), (''d_beta'', mul_scalar y_b (Num True 1))]
         = and_then (dcenter order x_a y_a) (\<lambda>dc_alpha.
           and_then (dcenter order x_b y_b) (\<lambda>dc_beta. Inr (gt dc_alpha dc_beta)))"
  proof (cases "dcenter order x_a y_a")
    case (Inl e)
    then show ?thesis by (simp add: check_ab_def getitem_def)
  next
    case (Inr ca)
    show ?thesis
    proof (cases "dcenter order x_b y_b")
      case (Inl e)
      then show ?thesis using r Inr
        by (cases "dcenter order x_b (mul_scalar y_b (Num True 1))")
           (simp_all add: check_ab_def getitem_def)
    next
      case cb: (Inr cb)
      then obtain cb' where c: "dcenter order x_b (mul_scalar y_b (Num True 1)) = Inr cb'"
        and s: "same_double cb' cb"
        using r by (cases "dcenter order x_b (mul_scalar y_b (Num True 1))") simp_all
      show ?thesis
        using Inr cb c gt_same_double [OF s, of ca] by (simp add: check_ab_def getitem_def)
    qed
  qed
qed

theorem dcenter_negation_invariant_witness:
  "list_all is_double [f64 (1 / 10), f64 (1 / 5)] \<and>
   trapz one_by_one [f64 (1 / 10), f64 (1 / 5)] [f64 1, f64 2] =
     Inr (Num False (1351079888211149 / 9007199254740992)) \<and>
   \<not> is_zero (Num False (1351079888211149 / 9007199254740992)) \<and>
   rel_sum (=) same_double
     (dcenter one_by_one [f64 1, f64 2] (mul_scalar [f64 (1 / 10), f64 (1 / 5)] (Num True 1)))
     (dcenter one_by_one [f64 1, f64 2] [f64 (1 / 10), f64 (1 / 5)]) \<and>
   check_ab one_by_one [(''dE_alpha'', [f64 0, f64 2]), (''d_alpha'', [f64 1, f64 1])]
     [(''dE_beta'', [f64 1, f64 2]),
      (''d_beta'', mul_scalar [f64 (1 / 10), f64 (1 / 5)] (Num True 1))] = Inr False"
proof -
  have d: "list_all is_double [f64 (1 / 10), f64 (1 / 5)]" by code_simp
  have t: "trapz one_by_one [f64 (1 / 10), f64 (1 / 5)] [f64 1, f64 2] =
     Inr (Num False (1351079888211149 / 9007199254740992))" by code_simp
  have n: "\<not> is_zero (Num False (1351079888211149 / 9007199254740992))" by simp
  have a: "dcenter one_by_one [f64 0, f64 2] [f64 1, f64 1] = Inr (Num False 1)" by code_simp
  have b: "dcenter one_by_one [f64 1, f64 2] [f64 (1 / 10), f64 (1 / 5)] =
     Inr (Num False (3752999689475413 / 2251799813685248))" by code_simp
  show ?thesis
    using d t n dcenter_negation_invariant [OF d t n, of "[f64 0, f64 2]" "[f64 1, f64 1]"]
    by (simp add: a b val_def)
qed




subsection \<open>Failures of the per-file pipeline\<close>

text \<open>
  Claim C5, as the code has it. For a document of 4 or of 6 series in which every point
  carries an \<^verbatim>\<open>XY\<close> attribute of two numbers, \<^verbatim>\<open>band_extract\<close> gives the labels by
  position and \<^verbatim>\<open>parse_xcd\<close> returns a table with the columns of these labels, in this
  order. The program has no error of its own for another number of series, and a document
  of 4 series still fails when one of its points has no \<^verbatim>\<open>XY\<close> attribute or a piece of it
  is not a number.
\<close>

theorem parse_xcd_band_count:
  "band_extract (map of_series [b0, b1, b2, b3]) =
     Inr ([(''s_alpha'', of_series b0), (''s_beta'', of_series b1),
           (''p_alpha'', of_series b2), (''p_beta'', of_series b3)], False) \<and>
   (\<exists>df. parse_xcd order (Tree (map of_series [b0, b1, b2, b3])) = Inr df \<and>
      map fst df = [''sE_alpha'', ''s_alpha'', ''sE_beta'', ''s_beta'', ''pE_alpha'', ''p_alpha'', ''pE_beta'', ''p_beta'']) \<and>
   band_extract (map of_series [b0, b1, b2, b3, b4, b5]) =
     Inr ([(''s_alpha'', of_series b0), (''s_beta'', of_series b1),
           (''p_alpha'', of_series b2), (''p_beta'', of_series b3),
           (''d_alpha'', of_series b4), (''d_beta'', of_series b5)], True) \<and>
   (\<exists>df. parse_xcd order (Tree (map of_series [b0, b1, b2, b3, b4, b5])) = Inr df \<and>
      map fst df = [''sE_alpha'', ''s_alpha'', ''sE_beta'', ''s_beta'', ''pE_alpha'', ''p_alpha'', ''pE_beta'', ''p_beta'',
                    ''dE_alpha'', ''d_alpha'', ''dE_beta'', ''d_beta''])"
proof (intro conjI)
  show "band_extract (map of_series [b0, b1, b2, b3]) =
     Inr ([(''s_alpha'', of_series b0), (''s_beta'', of_series b1),
           (''p_alpha'', of_series b2), (''p_beta'', of_series b3)], False)"
    by (simp add: band_extract_four)
  show "\<exists>df. parse_xcd order (Tree (map of_series [b0, b1, b2, b3])) = Inr df \<and>
      map fst df = [''sE_alpha'', ''s_alpha'', ''sE_beta'', ''s_beta'', ''pE_alpha'', ''p_alpha'', ''pE_beta'', ''p_beta'']"
    unfolding parse_xcd_four by simp
  show "band_extract (map of_series [b0, b1, b2, b3, b4, b5]) =
     Inr ([(''s_alpha'', of_series b0), (''s_beta'', of_series b1),
           (''p_alpha'', of_series b2), (''p_beta'', of_series b3),
           (''d_alpha'', of_series b4), (''d_beta'', of_series b5)], True)"
    by (simp add: band_extract_six)
  obtain sw where sw: "check_ab order [(''dE_alpha'', map fst (XY b4)), (''d_alpha'', map snd (XY b4))]
               [(''dE_beta'', map fst (XY b5)),
                (''d_beta'', mul_scalar (map snd (XY b5)) (Num True 1))] = Inr sw"
    using check_ab_total by blast
  show "\<exists>df. parse_xcd order (Tree (map of_series [b0, b1, b2, b3, b4, b5])) = Inr df \<and>
      map fst df = [''sE_alpha'', ''s_alpha'', ''sE_beta'', ''s_beta'', ''pE_alpha'', ''p_alpha'', ''pE_beta'', ''p_beta'',
                    ''dE_alpha'', ''d_alpha'', ''dE_beta'', ''d_beta'']"
    unfolding parse_xcd_six [OF sw] by simp
qed

theorem band_count_counterexample:
  "parse_xcd one_by_one
     (Tree (map of_series [flat 0 1 1, flat 0 1 1, flat 0 1 1, flat 0 1 1, flat 0 1 1])) =
     Inl (UnboundLocalError ''d_band_exists'') \<and>
   parse_xcd one_by_one
     (Tree [of_series (flat 0 1 1), \<lparr>attrib_Name = Some ''s'', items = [None]\<rparr>,
            of_series (flat 0 1 1), of_series (flat 0 1 1)]) = Inl (KeyError ''XY'') \<and>
   parse_xcd one_by_one
     (Tree [of_series (flat 0 1 1), of_series (flat 0 1 1), of_series (flat 0 1 1),
            \<lparr>attrib_Name = Some ''p'', items = [Some [Number (f64 0), Text]]\<rparr>]) =
     Inl ValueError"
  by code_simp

text \<open>
  Claim C6. A file that is not a well-formed document makes \<^verbatim>\<open>parse_xcd\<close> fail with the
  parser's \<^verbatim>\<open>ParseError\<close>, which nothing catches, and makes the constructor of
  \<^verbatim>\<open>XcdFile\<close> fail with the \<^verbatim>\<open>AttributeError\<close> it raises from it. Neither returns
  a table or an object.
\<close>

theorem parse_failure_propagates:
  "parse_xcd order Unparseable = Inl ParseError \<and> XcdFile_init Unparseable = Inl AttributeError"
  by (simp add: parse_xcd_def XcdFile_init_def ET_parse_def)

subsection \<open>Exchange of the d pair\<close>

text \<open>
  Claim C1, as the code has it. Take a document of six well-formed series whose two d
  curves have finite band centers, as \<^verbatim>\<open>dcenter\<close> computes them in doubles.
  \<^verbatim>\<open>parse_xcd\<close> exchanges the d pair if and only if the computed center of the raw alpha
  curve is strictly greater than the computed center of the raw beta curve. The
  \<^verbatim>\<open>dE_alpha\<close> and \<^verbatim>\<open>d_alpha\<close> columns are therefore always taken from the raw d curve
  with the lower (or equal) computed center, and the beta columns from the one with the
  higher (or equal) computed center. With centers 1 and 2 nothing is exchanged.
\<close>

theorem d_pair_swapped_iff_alpha_center_greater:
  assumes "list_all is_double (map snd (XY b5))"
      and "dcenter order (map fst (XY b4)) (map snd (XY b4)) = Inr (Num s m)"
      and "dcenter order (map fst (XY b5)) (map snd (XY b5)) = Inr (Num t n)"
  shows "\<exists>df. parse_xcd order (Tree (map of_series [b0, b1, b2, b3, b4, b5])) = Inr df \<and>
     map_of df ''dE_alpha'' =
       Some (pad (rows [b0, b1, b2, b3, b4, b5])
              (map fst (XY (if gt (Num s m) (Num t n) then b5 else b4)))) \<and>
     map_of df ''d_alpha'' =
       Some (pad (rows [b0, b1, b2, b3, b4, b5])
              (if gt (Num s m) (Num t n) then mul_scalar (map snd (XY b5)) (Num True 1)
               else map snd (XY b4))) \<and>
     map_of df ''dE_beta'' =
       Some (pad (rows [b0, b1, b2, b3, b4, b5])
              (map fst (XY (if gt (Num s m) (Num t n) then b4 else b5)))) \<and>
     map_of df ''d_beta'' =
       Some (pad (rows [b0, b1, b2, b3, b4, b5])
              (if gt (Num s m) (Num t n) then map snd (XY b4)
               else mul_scalar (map snd (XY b5)) (Num True 1))) \<and>
     dcenter order (map fst (XY (if gt (Num s m) (Num t n) then b5 else b4)))
                   (map snd (XY (if gt (Num s m) (Num t n) then b5 else b4)))
       = Inr (if gt (Num s m) (Num t n) then Num t n else Num s m) \<and>
     dcenter order (map fst (XY (if gt (Num s m) (Num t n) then b4 else b5)))
                   (map snd (XY (if gt (Num s m) (Num t n) then b4 else b5)))
       = Inr (if gt (Num s m) (Num t n) then Num s m else Num t n) \<and>
     \<not> gt (if gt (Num s m) (Num t n) then Num t n else Num s m)
          (if gt (Num s m) (Num t n) then Num s m else Num t n)"
proof -
  note p = parse_xcd_six [OF check_ab_numbers [OF assms], of b0 b1 b2 b3]
  show ?thesis
  proof (cases "gt (Num s m) (Num t n)")
    case True
    then have "\<not> gt (Num t n) (Num s m)" by (simp add: val_def split: if_splits)
    then show ?thesis using True assms(2,3) unfolding p by simp
  next
    case False
    then show ?thesis using assms(2,3) unfolding p by simp
  qed
qed

theorem d_pair_swapped_iff_alpha_center_greater_witness:
  "list_all is_double (map snd (XY (segment 1 (1 / 10) 2 (1 / 5)))) \<and>
   dcenter one_by_one (map fst (XY (segment 1 (1351079888211149 / 4503599627370496) 2 (1351079888211149 / 2251799813685248)))) (map snd (XY (segment 1 (1351079888211149 / 4503599627370496) 2 (1351079888211149 / 2251799813685248)))) = Inr (Num False (7505999378950827 / 4503599627370496)) \<and>
   dcenter one_by_one (map fst (XY (segment 1 (1 / 10) 2 (1 / 5)))) (map snd (XY (segment 1 (1 / 10) 2 (1 / 5)))) = Inr (Num False (3752999689475413 / 2251799813685248)) \<and>
   (\<exists>df. parse_xcd one_by_one (Tree (map of_series
        [flat 0 1 1, flat 0 1 1, flat 0 1 1, flat 0 1 1, segment 1 (1351079888211149 / 4503599627370496) 2 (1351079888211149 / 2251799813685248), segment 1 (1 / 10) 2 (1 / 5)])) = Inr df \<and>
     map_of df ''dE_alpha'' = Some (pad (rows [flat 0 1 1, flat 0 1 1, flat 0 1 1, flat 0 1 1, segment 1 (1351079888211149 / 4503599627370496) 2 (1351079888211149 / 2251799813685248), segment 1 (1 / 10) 2 (1 / 5)]) (map fst (XY (segment 1 (1 / 10) 2 (1 / 5))))) \<and>
     map_of df ''d_alpha'' = Some (pad (rows [flat 0 1 1, flat 0 1 1, flat 0 1 1, flat 0 1 1, segment 1 (1351079888211149 / 4503599627370496) 2 (1351079888211149 / 2251799813685248), segment 1 (1 / 10) 2 (1 / 5)]) (mul_scalar (map snd (XY (segment 1 (1 / 10) 2 (1 / 5)))) (Num True 1))) \<and>
     map_of df ''dE_beta'' = Some (pad (rows [flat 0 1 1, flat 0 1 1, flat 0 1 1, flat 0 1 1, segment 1 (1351079888211149 / 4503599627370496) 2 (1351079888211149 / 2251799813685248), segment 1 (1 / 10) 2 (1 / 5)]) (map fst (XY (segment 1 (1351079888211149 / 4503599627370496) 2 (1351079888211149 / 2251799813685248))))) \<and>
     map_of df ''d_beta'' = Some (pad (rows [flat 0 1 1, flat 0 1 1, flat 0 1 1, flat 0 1 1, segment 1 (1351079888211149 / 4503599627370496) 2 (1351079888211149 / 2251799813685248), segment 1 (1 / 10) 2 (1 / 5)]) (map snd (XY (segment 1 (1351079888211149 / 4503599627370496) 2 (1351079888211149 / 2251799813685248))))))"
proof -
  have d: "list_all is_double (map snd (XY (segment 1 (1 / 10) 2 (1 / 5))))"
    by code_simp
  have a: "dcenter one_by_one (map fst (XY (segment 1 (1351079888211149 / 4503599627370496) 2 (1351079888211149 / 2251799813685248)))) (map snd (XY (segment 1 (1351079888211149 / 4503599627370496) 2 (1351079888211149 / 2251799813685248)))) = Inr (Num False (7505999378950827 / 4503599627370496))"
    by code_simp
  have b: "dcenter one_by_one (map fst (XY (segment 1 (1 / 10) 2 (1 / 5)))) (map snd (XY (segment 1 (1 / 10) 2 (1 / 5)))) = Inr (Num False (3752999689475413 / 2251799813685248))"
    by code_simp
  show ?thesis
    using d a b
      d_pair_swapped_iff_alpha_center_greater [OF d a b,
        of "flat 0 1 1" "flat 0 1 1" "flat 0 1 1" "flat 0 1 1"]
    by (simp add: val_def)
qed

theorem d_pair_centers_1_2_counterexample:
  "dcenter one_by_one (map fst (XY (flat 0 2 1))) (map snd (XY (flat 0 2 1))) = Inr (Num False 1) \<and>
   dcenter one_by_one (map fst (XY (flat 1 3 1))) (map snd (XY (flat 1 3 1))) = Inr (Num False 2) \<and>
   parse_xcd one_by_one (Tree (map of_series [flat 0 1 1, flat 0 1 1, flat 0 1 1, flat 0 1 1, flat 0 2 1, flat 1 3 1])) =
     Inr [(''sE_alpha'', [Num False 0, Num False 1]), (''s_alpha'', [Num False 1, Num False 1]),
          (''sE_beta'', [Num False 0, Num False 1]), (''s_beta'', [Num True 1, Num True 1]),
          (''pE_alpha'', [Num False 0, Num False 1]), (''p_alpha'', [Num False 1, Num False 1]),
          (''pE_beta'', [Num False 0, Num False 1]), (''p_beta'', [Num True 1, Num True 1]),
          (''dE_alpha'', [Num False 0, Num False 2]), (''d_alpha'', [Num False 1, Num False 1]),
          (''dE_beta'', [Num False 1, Num False 3]), (''d_beta'', [Num True 1, Num True 1])]"
  by code_simp

text \<open>
  Claim C3, as the code has it. When the band centers that \<^verbatim>\<open>dcenter\<close> computes for the
  two d curves are the same finite number, \<^verbatim>\<open>check_ab\<close> answers \<^verbatim>\<open>False\<close> (the
  comparison is strict) and the d pair is not exchanged: the alpha columns hold the raw
  alpha curve, the beta columns the raw beta curve with its intensities negated.
\<close>

theorem d_pair_tie_not_swapped:
  assumes "list_all is_double (map snd (XY b5))"
      and "dcenter order (map fst (XY b4)) (map snd (XY b4)) = Inr (Num s m)"
      and "dcenter order (map fst (XY b5)) (map snd (XY b5)) = Inr (Num t n)"
      and "val s m = val t n"
  shows "\<exists>df. parse_xcd order (Tree (map of_series [b0, b1, b2, b3, b4, b5])) = Inr df \<and>
     map_of df ''dE_alpha'' = Some (pad (rows [b0, b1, b2, b3, b4, b5]) (map fst (XY b4))) \<and>
     map_of df ''d_alpha'' = Some (pad (rows [b0, b1, b2, b3, b4, b5]) (map snd (XY b4))) \<and>
     map_of df ''dE_beta'' = Some (pad (rows [b0, b1, b2, b3, b4, b5]) (map fst (XY b5))) \<and>
     map_of df ''d_beta'' =
       Some (pad (rows [b0, b1, b2, b3, b4, b5]) (mul_scalar (map snd (XY b5)) (Num True 1)))"
proof -
  have "check_ab order [(''dE_alpha'', map fst (XY b4)), (''d_alpha'', map snd (XY b4))]
                 [(''dE_beta'', map fst (XY b5)),
                  (''d_beta'', mul_scalar (map snd (XY b5)) (Num True 1))] = Inr False"
    using check_ab_numbers [OF assms(1,2,3)] assms(4) by simp
  from parse_xcd_six [OF this, of b0 b1 b2 b3] show ?thesis
    by simp
qed

theorem d_pair_tie_not_swapped_witness:
  "list_all is_double (map snd (XY (flat 1 3 2))) \<and>
   dcenter one_by_one (map fst (XY (flat 0 4 1))) (map snd (XY (flat 0 4 1))) = Inr (Num False 2) \<and>
   dcenter one_by_one (map fst (XY (flat 1 3 2))) (map snd (XY (flat 1 3 2))) = Inr (Num False 2) \<and>
   val False 2 = val False 2 \<and>
   (\<exists>df. parse_xcd one_by_one (Tree (map of_series
        [flat 0 1 1, flat 0 1 1, flat 0 1 1, flat 0 1 1, flat 0 4 1, flat 1 3 2])) = Inr df \<and>
     map_of df ''dE_alpha'' = Some (pad (rows [flat 0 1 1, flat 0 1 1, flat 0 1 1, flat 0 1 1, flat 0 4 1, flat 1 3 2]) (map fst (XY (flat 0 4 1)))) \<and>
     map_of df ''d_alpha'' = Some (pad (rows [flat 0 1 1, flat 0 1 1, flat 0 1 1, flat 0 1 1, flat 0 4 1, flat 1 3 2]) (map snd (XY (flat 0 4 1)))) \<and>
     map_of df ''dE_beta'' = Some (pad (rows [flat 0 1 1, flat 0 1 1, flat 0 1 1, flat 0 1 1, flat 0 4 1, flat 1 3 2]) (map fst (XY (flat 1 3 2)))) \<and>
     map_of df ''d_beta'' = Some (pad (rows [flat 0 1 1, flat 0 1 1, flat 0 1 1, flat 0 1 1, flat 0 4 1, flat 1 3 2]) (mul_scalar (map snd (XY (flat 1 3 2))) (Num True 1))))"
proof -
  have d: "list_all is_double (map snd (XY (flat 1 3 2)))"
    by code_simp
  have a: "dcenter one_by_one (map fst (XY (flat 0 4 1))) (map snd (XY (flat 0 4 1))) = Inr (Num False 2)"
    by code_simp
  have b: "dcenter one_by_one (map fst (XY (flat 1 3 2))) (map snd (XY (flat 1 3 2))) = Inr (Num False 2)"
    by code_simp
  have e: "val False 2 = val False 2" by simp
  show ?thesis
    using d a b
      d_pair_tie_not_swapped [OF d a b e, of "flat 0 1 1" "flat 0 1 1" "flat 0 1 1" "flat 0 1 1"]
    by simp
qed

theorem d_pair_tie_counterexample:
  "dcenter one_by_one (map fst (XY (flat 0 2 1))) (map snd (XY (flat 0 2 1))) = Inr (Num False 1) \<and>
   dcenter one_by_one (map fst (XY (flat 0 2 3))) (map snd (XY (flat 0 2 3))) = Inr (Num False 1) \<and>
   parse_xcd one_by_one (Tree (map of_series [flat 0 1 1, flat 0 1 1, flat 0 1 1, flat 0 1 1, flat 0 2 1, flat 0 2 3])) =
     Inr [(''sE_alpha'', [Num False 0, Num False 1]), (''s_alpha'', [Num False 1, Num False 1]),
          (''sE_beta'', [Num False 0, Num False 1]), (''s_beta'', [Num True 1, Num True 1]),
          (''pE_alpha'', [Num False 0, Num False 1]), (''p_alpha'', [Num False 1, Num False 1]),
          (''pE_beta'', [Num False 0, Num False 1]), (''p_beta'', [Num True 1, Num True 1]),
          (''dE_alpha'', [Num False 0, Num False 2]), (''d_alpha'', [Num False 1, Num False 1]),
          (''dE_beta'', [Num False 0, Num False 2]), (''d_beta'', [Num True 3, Num True 3])]"
  by code_simp

subsection \<open>The sign convention\<close>

text \<open>
  Claim C2, as the code has it. The sign of an output curve follows the series it is taken
  from, not the label it ends under: the intensities of the second series of each pair are
  multiplied by \<open>-1\<close>, those of the first series are kept. For the s and p pairs, and for
  the d pair when it is not exchanged, the beta column is thus the negated raw beta curve
  and the alpha column the raw alpha curve. When the d pair is exchanged, \<^verbatim>\<open>d_alpha\<close>
  holds the negated raw beta curve and \<^verbatim>\<open>d_beta\<close> the raw alpha curve as it is.
\<close>

theorem negation_follows_source_series:
  "(\<exists>df. parse_xcd order (Tree (map of_series [b0, b1, b2, b3])) = Inr df \<and>
      map_of df ''s_alpha'' = Some (pad (rows [b0, b1, b2, b3]) (map snd (XY b0))) \<and>
      map_of df ''s_beta'' = Some (pad (rows [b0, b1, b2, b3]) (mul_scalar (map snd (XY b1)) (Num True 1))) \<and>
      map_of df ''p_alpha'' = Some (pad (rows [b0, b1, b2, b3]) (map snd (XY b2))) \<and>
      map_of df ''p_beta'' = Some (pad (rows [b0, b1, b2, b3]) (mul_scalar (map snd (XY b3)) (Num True 1)))) \<and>
   (\<exists>df sw.
      check_ab order [(''dE_alpha'', map fst (XY b4)), (''d_alpha'', map snd (XY b4))]
               [(''dE_beta'', map fst (XY b5)),
                (''d_beta'', mul_scalar (map snd (XY b5)) (Num True 1))] = Inr sw \<and>
      parse_xcd order (Tree (map of_series [b0, b1, b2, b3, b4, b5])) = Inr df \<and>
      map_of df ''s_alpha'' = Some (pad (rows [b0, b1, b2, b3, b4, b5]) (map snd (XY b0))) \<and>
      map_of df ''s_beta'' = Some (pad (rows [b0, b1, b2, b3, b4, b5]) (mul_scalar (map snd (XY b1)) (Num True 1))) \<and>
      map_of df ''p_alpha'' = Some (pad (rows [b0, b1, b2, b3, b4, b5]) (map snd (XY b2))) \<and>
      map_of df ''p_beta'' = Some (pad (rows [b0, b1, b2, b3, b4, b5]) (mul_scalar (map snd (XY b3)) (Num True 1))) \<and>
      map_of df ''d_alpha'' = Some (pad (rows [b0, b1, b2, b3, b4, b5]) (if sw then mul_scalar (map snd (XY b5)) (Num True 1) else map snd (XY b4))) \<and>
      map_of df ''d_beta'' = Some (pad (rows [b0, b1, b2, b3, b4, b5]) (if sw then map snd (XY b4) else mul_scalar (map snd (XY b5)) (Num True 1))))"
proof (rule conjI)
  show "\<exists>df. parse_xcd order (Tree (map of_series [b0, b1, b2, b3])) = Inr df \<and>
      map_of df ''s_alpha'' = Some (pad (rows [b0, b1, b2, b3]) (map snd (XY b0))) \<and>
      map_of df ''s_beta'' = Some (pad (rows [b0, b1, b2, b3]) (mul_scalar (map snd (XY b1)) (Num True 1))) \<and>
      map_of df ''p_alpha'' = Some (pad (rows [b0, b1, b2, b3]) (map snd (XY b2))) \<and>
      map_of df ''p_beta'' = Some (pad (rows [b0, b1, b2, b3]) (mul_scalar (map snd (XY b3)) (Num True 1)))"
    unfolding parse_xcd_four by simp
next
  obtain sw where sw: "check_ab order [(''dE_alpha'', map fst (XY b4)), (''d_alpha'', map snd (XY b4))]
               [(''dE_beta'', map fst (XY b5)),
                (''d_beta'', mul_scalar (map snd (XY b5)) (Num True 1))] = Inr sw"
    using check_ab_total by blast
  show "\<exists>df sw.
      check_ab order [(''dE_alpha'', map fst (XY b4)), (''d_alpha'', map snd (XY b4))]
               [(''dE_beta'', map fst (XY b5)),
                (''d_beta'', mul_scalar (map snd (XY b5)) (Num True 1))] = Inr sw \<and>
      parse_xcd order (Tree (map of_series [b0, b1, b2, b3, b4, b5])) = Inr df \<and>
      map_of df ''s_alpha'' = Some (pad (rows [b0, b1, b2, b3, b4, b5]) (map snd (XY b0))) \<and>
      map_of df ''s_beta'' = Some (pad (rows [b0, b1, b2, b3, b4, b5]) (mul_scalar (map snd (XY b1)) (Num True 1))) \<and>
      map_of df ''p_alpha'' = Some (pad (rows [b0, b1, b2, b3, b4, b5]) (map snd (XY b2))) \<and>
      map_of df ''p_beta'' = Some (pad (rows [b0, b1, b2, b3, b4, b5]) (mul_scalar (map snd (XY b3)) (Num True 1))) \<and>
      map_of df ''d_alpha'' = Some (pad (rows [b0, b1, b2, b3, b4, b5]) (if sw then mul_scalar (map snd (XY b5)) (Num True 1) else map snd (XY b4))) \<and>
      map_of df ''d_beta'' = Some (pad (rows [b0, b1, b2, b3, b4, b5]) (if sw then map snd (XY b4) else mul_scalar (map snd (XY b5)) (Num True 1)))"
    using sw parse_xcd_six [OF sw, of b0 b1 b2 b3]
    by simp
qed

theorem exchanged_d_alpha_negated_counterexample:
  "parse_xcd one_by_one (Tree (map of_series [flat 0 1 1, flat 0 1 1, flat 0 1 1, flat 0 1 1, flat 1 3 1, flat 0 2 2])) =
     Inr [(''sE_alpha'', [Num False 0, Num False 1]), (''s_alpha'', [Num False 1, Num False 1]),
          (''sE_beta'', [Num False 0, Num False 1]), (''s_beta'', [Num True 1, Num True 1]),
          (''pE_alpha'', [Num False 0, Num False 1]), (''p_alpha'', [Num False 1, Num False 1]),
          (''pE_beta'', [Num False 0, Num False 1]), (''p_beta'', [Num True 1, Num True 1]),
          (''dE_alpha'', [Num False 0, Num False 2]), (''d_alpha'', [Num True 2, Num True 2]),
          (''dE_beta'', [Num False 1, Num False 3]), (''d_beta'', [Num False 1, Num False 1])]"
  by code_simp

subsection \<open>The order of the files\<close>

text \<open>
  Claim C8. When the second sorted name holds neither \<^verbatim>\<open>subsurface\<close> nor
  \<^verbatim>\<open>surface\<close>, the planned order is the first four sorted names reversed, followed by the
  remaining sorted names unchanged. The listing \<^verbatim>\<open>m1, m2, m3, m4, t1, t2\<close> comes out as
  \<^verbatim>\<open>m4, m3, m2, m1, t1, t2\<close>.
\<close>

theorem bulk_only_order:
  "(2 \<le> length l \<and> \<not> contains ''subsurface'' (sort l ! 1) \<and> \<not> contains ''surface'' (sort l ! 1)
      \<longrightarrow> new_filelist l = Inr (rev (take 4 (sort l)) @ drop 4 (sort l))) \<and>
   new_filelist [''m1'', ''m2'', ''m3'', ''m4'', ''t1'', ''t2''] =
     Inr [''m4'', ''m3'', ''m2'', ''m1'', ''t1'', ''t2'']"
proof (intro conjI impI)
  assume "2 \<le> length l \<and> \<not> contains ''subsurface'' (sort l ! 1) \<and> \<not> contains ''surface'' (sort l ! 1)"
  then show "new_filelist l = Inr (rev (take 4 (sort l)) @ drop 4 (sort l))"
    by (simp add: new_filelist_cases)
next
  show "new_filelist [''m1'', ''m2'', ''m3'', ''m4'', ''t1'', ''t2''] =
     Inr [''m4'', ''m3'', ''m2'', ''m1'', ''t1'', ''t2'']"
    by code_simp
qed

theorem bulk_only_order_witness:
  "2 \<le> length [''t2'', ''m3'', ''m1'', ''t1'', ''m4'', ''m2''] \<and>
   \<not> contains ''subsurface'' (sort [''t2'', ''m3'', ''m1'', ''t1'', ''m4'', ''m2''] ! 1) \<and>
   \<not> contains ''surface'' (sort [''t2'', ''m3'', ''m1'', ''t1'', ''m4'', ''m2''] ! 1) \<and>
   new_filelist [''t2'', ''m3'', ''m1'', ''t1'', ''m4'', ''m2''] =
     Inr [''m4'', ''m3'', ''m2'', ''m1'', ''t1'', ''t2'']"
proof -
  have s: "sort [''t2'', ''m3'', ''m1'', ''t1'', ''m4'', ''m2''] = [''m1'', ''m2'', ''m3'', ''m4'', ''t1'', ''t2'']"
    by code_simp
  have h: "2 \<le> length [''t2'', ''m3'', ''m1'', ''t1'', ''m4'', ''m2''] \<and>
   \<not> contains ''subsurface'' (sort [''t2'', ''m3'', ''m1'', ''t1'', ''m4'', ''m2''] ! 1) \<and>
   \<not> contains ''surface'' (sort [''t2'', ''m3'', ''m1'', ''t1'', ''m4'', ''m2''] ! 1)"
    by code_simp
  show ?thesis
    using h bulk_only_order [of "[''t2'', ''m3'', ''m1'', ''t1'', ''m4'', ''m2'']"]
    by (simp add: s)
qed

text \<open>
  Claim C7, as the code has it. The planned order depends only on which names are listed,
  not on the order in which \<^verbatim>\<open>os.listdir\<close> returns them. For a listing of at least two
  names it is a permutation of the listing when the names after the compressive block come
  in complete groups: a multiple of three after the first twelve in the surface and
  subsurface layout, a multiple of two after the first eight in the surface-only layout,
  and always in the bulk-only layout.
\<close>

theorem planned_order_is_permutation:
  "(mset l1 = mset l2 \<longrightarrow> new_filelist l1 = new_filelist l2) \<and>
   (2 \<le> length la \<and> contains ''subsurface'' (sort la ! 1) \<and> contains ''bulk'' (sort la ! 0) \<and>
    3 dvd (length la - 12)
      \<longrightarrow> (\<exists>out. new_filelist la = Inr out \<and> mset out = mset la)) \<and>
   (2 \<le> length lb \<and> \<not> (contains ''subsurface'' (sort lb ! 1) \<and> contains ''bulk'' (sort lb ! 0)) \<and>
    contains ''surface'' (sort lb ! 1) \<and> 2 dvd (length lb - 8)
      \<longrightarrow> (\<exists>out. new_filelist lb = Inr out \<and> mset out = mset lb)) \<and>
   (2 \<le> length lc \<and> \<not> (contains ''subsurface'' (sort lc ! 1) \<and> contains ''bulk'' (sort lc ! 0)) \<and>
    \<not> contains ''surface'' (sort lc ! 1)
      \<longrightarrow> (\<exists>out. new_filelist lc = Inr out \<and> mset out = mset lc))"
proof (intro conjI impI)
  assume "mset l1 = mset l2"
  then have "sort l1 = sort l2" by (rule sort_cong_mset)
  moreover have "length l1 = length l2" using \<open>mset l1 = mset l2\<close> by (rule mset_eq_length)
  ultimately show "new_filelist l1 = new_filelist l2"
    by (simp add: new_filelist_def)
next
  assume a: "2 \<le> length la \<and> contains ''subsurface'' (sort la ! 1) \<and> contains ''bulk'' (sort la ! 0) \<and>
    3 dvd (length la - 12)"
  then have "length (drop 12 (sort la)) mod 3 = 0" by (simp add: dvd_eq_mod_eq_0)
  then have "mset (rev (take 12 (sort la)) @ triples (drop 12 (sort la))) = mset la"
    using mset_take_drop [of 12 "sort la"] by (simp add: mset_triples)
  then show "\<exists>out. new_filelist la = Inr out \<and> mset out = mset la"
    using a by (simp add: new_filelist_cases)
next
  assume b: "2 \<le> length lb \<and> \<not> (contains ''subsurface'' (sort lb ! 1) \<and> contains ''bulk'' (sort lb ! 0)) \<and>
    contains ''surface'' (sort lb ! 1) \<and> 2 dvd (length lb - 8)"
  then have "length (drop 8 (sort lb)) mod 2 = 0" by (simp add: dvd_eq_mod_eq_0)
  then have "mset (rev (take 8 (sort lb)) @ pairs (drop 8 (sort lb))) = mset lb"
    using mset_take_drop [of 8 "sort lb"] by (simp add: mset_pairs)
  then show "\<exists>out. new_filelist lb = Inr out \<and> mset out = mset lb"
    using b by (auto simp: new_filelist_cases)
next
  assume c: "2 \<le> length lc \<and> \<not> (contains ''subsurface'' (sort lc ! 1) \<and> contains ''bulk'' (sort lc ! 0)) \<and>
    \<not> contains ''surface'' (sort lc ! 1)"
  have "mset (rev (take 4 (sort lc)) @ drop 4 (sort lc)) = mset lc"
    using mset_take_drop [of 4 "sort lc"] by simp
  then show "\<exists>out. new_filelist lc = Inr out \<and> mset out = mset lc"
    using c by (auto simp: new_filelist_cases)
qed

theorem planned_order_is_permutation_witness:
  "mset [''t1'', ''m1''] = mset [''m1'', ''t1''] \<and>
   new_filelist [''t1'', ''m1''] = new_filelist [''m1'', ''t1''] \<and>
   (\<exists>out. new_filelist
     [''c1_bulk'', ''c1_subsurface'', ''c1_surface'', ''c2_bulk'', ''c2_subsurface'',
      ''c2_surface'', ''c3_bulk'', ''c3_subsurface'', ''c3_surface'', ''c4_bulk'',
      ''c4_subsurface'', ''c4_surface'', ''t1_bulk'', ''t1_subsurface'',
      ''t1_surface''] = Inr out \<and>
     mset out = mset
     [''c1_bulk'', ''c1_subsurface'', ''c1_surface'', ''c2_bulk'', ''c2_subsurface'',
      ''c2_surface'', ''c3_bulk'', ''c3_subsurface'', ''c3_surface'', ''c4_bulk'',
      ''c4_subsurface'', ''c4_surface'', ''t1_bulk'', ''t1_subsurface'',
      ''t1_surface'']) \<and>
   (\<exists>out. new_filelist
     [''c1_bulk'', ''c1_surface'', ''c2_bulk'', ''c2_surface'', ''c3_bulk'',
      ''c3_surface'', ''c4_bulk'', ''c4_surface'', ''t1_bulk'', ''t1_surface''] = Inr out \<and>
     mset out = mset
     [''c1_bulk'', ''c1_surface'', ''c2_bulk'', ''c2_surface'', ''c3_bulk'',
      ''c3_surface'', ''c4_bulk'', ''c4_surface'', ''t1_bulk'', ''t1_surface'']) \<and>
   (\<exists>out. new_filelist [''m1'', ''m2'', ''m3'', ''m4'', ''t1'', ''t2''] = Inr out \<and>
     mset out = mset [''m1'', ''m2'', ''m3'', ''m4'', ''t1'', ''t2''])"
proof -
  let ?la = "[''c1_bulk'', ''c1_subsurface'', ''c1_surface'', ''c2_bulk'', ''c2_subsurface'',
       ''c2_surface'', ''c3_bulk'', ''c3_subsurface'', ''c3_surface'', ''c4_bulk'',
       ''c4_subsurface'', ''c4_surface'', ''t1_bulk'', ''t1_subsurface'',
       ''t1_surface'']"
  let ?lb = "[''c1_bulk'', ''c1_surface'', ''c2_bulk'', ''c2_surface'', ''c3_bulk'',
       ''c3_surface'', ''c4_bulk'', ''c4_surface'', ''t1_bulk'', ''t1_surface'']"
  let ?lc = "[''m1'', ''m2'', ''m3'', ''m4'', ''t1'', ''t2'']"
  have m: "mset [''t1'', ''m1''] = mset [''m1'', ''t1'']" by simp
  have a: "2 \<le> length ?la \<and> contains ''subsurface'' (sort ?la ! 1) \<and>
           contains ''bulk'' (sort ?la ! 0) \<and> 3 dvd (length ?la - 12)"
    by code_simp
  have b: "2 \<le> length ?lb \<and>
           \<not> (contains ''subsurface'' (sort ?lb ! 1) \<and> contains ''bulk'' (sort ?lb ! 0)) \<and>
           contains ''surface'' (sort ?lb ! 1) \<and> 2 dvd (length ?lb - 8)"
    by code_simp
  have c: "2 \<le> length ?lc \<and>
           \<not> (contains ''subsurface'' (sort ?lc ! 1) \<and> contains ''bulk'' (sort ?lc ! 0)) \<and>
           \<not> contains ''surface'' (sort ?lc ! 1)"
    by code_simp
  show ?thesis
    using m a b c
      planned_order_is_permutation [of "[''t1'', ''m1'']" "[''m1'', ''t1'']" ?la ?lb ?lc]
    by blast
qed

theorem incomplete_group_dropped_counterexample:
  "new_filelist
     [''a_bulk'', ''a_surface'', ''b_bulk'', ''b_surface'', ''c_bulk'', ''c_surface'',
      ''d_bulk'', ''d_surface'', ''e_bulk'', ''e_surface'', ''f_bulk''] =
   Inr [''d_surface'', ''d_bulk'', ''c_surface'', ''c_bulk'', ''b_surface'', ''b_bulk'',
        ''a_surface'', ''a_bulk'', ''e_surface'', ''e_bulk''] \<and>
   new_filelist [''a_bulk''] = Inl IndexError"
  by code_simp

end
